theory Spec2Isabelle
  imports Complex_Main
begin

section \<open>Data model\<close>

text \<open>
  The persistent records follow the Prisma schema (models \<open>AdvertisementSlot\<close>,
  \<open>Booking\<close>, \<open>Payment\<close>, \<open>RadioStation\<close> and their enums). Every model has a field
  \<open>id\<close>; the record fields carry the model's name as a prefix where the schema reuses a
  name. \<open>DateTime\<close> values are kept as ISO strings.
\<close>

datatype SlotStatus = AVAILABLE | BOOKED

datatype BookingStatus = BookingStatus_PENDING | APPROVED | REJECTED

datatype PaymentStatus = PENDING | COMPLETED | FAILED

text \<open>
  A JavaScript number: a finite double \<open>Finite m e\<close> with value \<open>m * 2 ^ e\<close>, or one of the
  three special values. A double is written with an exponent \<open>e\<close> of at least \<open>- 1074\<close>,
  the exponent of the smallest positive double; the same double can be written with
  several pairs. Negative zero is not told apart from zero (both are \<open>\<le> 0\<close>).
\<close>

datatype number = Finite int int | NaN | PosInfinity | NegInfinity

text \<open>The number of binary digits of a natural number.\<close>

fun bit_length :: "nat \<Rightarrow> nat" where
  "bit_length n = (if n = 0 then 0 else Suc (bit_length (n div 2)))"

declare bit_length.simps [simp del]

text \<open>\<open>m / 2 ^ k\<close> rounded to the nearest integer, a tie going to the even one.\<close>

definition round_ties_even :: "int \<Rightarrow> nat \<Rightarrow> int" where
  "round_ties_even m k =
     (let q = m div 2 ^ k; r = m mod 2 ^ k
      in if 2 * r < 2 ^ k then q
         else if 2 * r > 2 ^ k then q + 1
         else if even q then q else q + 1)"

text \<open>
  A nonzero product \<open>p * 2 ^ e\<close> brought to a significand of 53 bits: the significand is
  kept when it fits and is rounded to 53 bits otherwise, a tie going to the even
  significand. The result is the pair of the new significand and exponent.
\<close>

definition round_to_53_bits :: "int \<Rightarrow> int \<Rightarrow> int \<times> int" where
  "round_to_53_bits p e =
     (let n = bit_length (nat \<bar>p\<bar>); k = n - 53
      in (if n \<le> 53 then p else round_ties_even p k, e + int k))"

text \<open>
  \<open>x * 100\<close> in double arithmetic, for a number \<open>Finite m e\<close> with \<open>- 1074 \<le> e\<close> (every
  double is a multiple of \<open>2 ^ - 1074\<close>). The exact product \<open>(100 * m) * 2 ^ e\<close> is rounded
  to 53 bits; a result whose magnitude is \<open>2 ^ 1024\<close> or more overflows to the infinity
  of its sign. Multiplying by the integer 100 never underflows.
\<close>

fun times_100 :: "number \<Rightarrow> number" where
  "times_100 (Finite m e) =
     (case round_to_53_bits (m * 100) e of
        (m', e') \<Rightarrow>
          let overflow = (int (bit_length (nat \<bar>m'\<bar>)) + e' > 1024)
          in if 0 < m' \<and> overflow then PosInfinity
             else if m' < 0 \<and> overflow then NegInfinity
             else Finite m' e')"
| "times_100 NaN = NaN"
| "times_100 PosInfinity = PosInfinity"
| "times_100 NegInfinity = NegInfinity"

text \<open>
  \<open>Math.round\<close>: the nearest integer, a tie going towards plus infinity, that is
  \<open>floor (x + 1/2)\<close>; the special values are returned as they are.
\<close>

fun Math_round :: "number \<Rightarrow> number" where
  "Math_round (Finite m e) =
     (if 0 \<le> e then Finite (m * 2 ^ nat e) 0
      else Finite ((m + 2 ^ (nat (- e) - 1)) div 2 ^ nat (- e)) 0)"
| "Math_round NaN = NaN"
| "Math_round PosInfinity = PosInfinity"
| "Math_round NegInfinity = NegInfinity"

text \<open>The comparison \<open>x <= 0\<close>, which is false for NaN.\<close>

fun number_le_zero :: "number \<Rightarrow> bool" where
  "number_le_zero (Finite m e) = (m \<le> 0)"
| "number_le_zero NaN = False"
| "number_le_zero PosInfinity = False"
| "number_le_zero NegInfinity = True"

text \<open>The rational value of a finite number.\<close>

fun number_value :: "number \<Rightarrow> rat option" where
  "number_value (Finite m e) =
     Some (if 0 \<le> e then of_int m * 2 ^ nat e else of_int m / 2 ^ nat (- e))"
| "number_value NaN = None"
| "number_value PosInfinity = None"
| "number_value NegInfinity = None"

text \<open>
  The finite doubles, as a set of rationals: a significand of at most 53 bits times a
  power of two between \<open>2 ^ - 1074\<close> and \<open>2 ^ 971\<close>.
\<close>

definition double_value :: "rat \<Rightarrow> bool" where
  "double_value v \<longleftrightarrow>
     (\<exists>m e. \<bar>m\<bar> < 2 ^ 53 \<and> - 1074 \<le> e \<and> e \<le> 971 \<and> v = of_int m * 2 powi e)"

record RadioStation =
  station_id :: string
  stationName :: string
  location :: string
  contactEmail :: string
  contactPhone :: string

record RJ =
  rj_id :: string
  rj_stationId :: string
  rjName :: string
  showName :: string
  showTiming :: string

record AdvertisementSlot =
  slot_id :: string
  slot_stationId :: string
  slot_rjId :: string
  slotTime :: string
  availabilityStatus :: SlotStatus
  price :: number

record Booking =
  booking_id :: string
  booking_userId :: string
  booking_stationId :: string
  booking_rjId :: string
  booking_slotId :: string
  bookingStatus :: BookingStatus
  bookingDate :: string

record Payment =
  payment_id :: string
  payment_bookingId :: string
  payment_userId :: string
  amountInPaise :: int
  currency :: string
  paymentStatus :: PaymentStatus
  transactionId :: string
  paymentDate :: string
  razorpayOrderId :: "string option"
  razorpayPaymentId :: "string option"
  razorpaySignature :: "string option"

text \<open>What the gateway is asked for, and the mail handed to the transporter.\<close>

record OrderOptions =
  options_amount :: number
  options_currency :: string
  options_receipt :: string
  notes_bookingId :: string
  notes_userId :: string
  notes_transactionId :: string
  notes_clientDateTime :: string

record MailOptions =
  mail_to :: string
  mail_stationName :: string
  mail_amountInPaise :: int
  mail_paymentID :: string

text \<open>
  The state a request runs against: the collections of the store (of a user only the id
  plays a part), and the two outward effects of the payment service (orders requested
  from the gateway, mails delivered by the transporter), in the order they happened.
\<close>

record state =
  payment_tbl :: "Payment list"
  booking_tbl :: "Booking list"
  advertisementSlot_tbl :: "AdvertisementSlot list"
  radioStation_tbl :: "RadioStation list"
  rj_tbl :: "RJ list"
  user_ids :: "string list"
  razorpay_orders :: "OrderOptions list"
  sent_mails :: "MailOptions list"

section \<open>Errors\<close>

text \<open>
  \<open>HttpException message status\<close>; the Nest subclasses are the same exception with
  their fixed status.
\<close>

datatype HttpException = HttpException string nat

abbreviation BAD_REQUEST :: nat where "BAD_REQUEST \<equiv> 400"
abbreviation NOT_FOUND :: nat where "NOT_FOUND \<equiv> 404"
abbreviation CONFLICT :: nat where "CONFLICT \<equiv> 409"
abbreviation INTERNAL_SERVER_ERROR :: nat where "INTERNAL_SERVER_ERROR \<equiv> 500"

fun getStatus :: "HttpException \<Rightarrow> nat" where
  "getStatus (HttpException msg st) = st"

definition NotFoundException :: "string \<Rightarrow> HttpException" where
  "NotFoundException msg = HttpException msg NOT_FOUND"

definition ConflictException :: "string \<Rightarrow> HttpException" where
  "ConflictException msg = HttpException msg CONFLICT"

definition InternalServerErrorException :: "string \<Rightarrow> HttpException" where
  "InternalServerErrorException msg = HttpException msg INTERNAL_SERVER_ERROR"

text \<open>
  The errors of the store's client: a known request error with its code, the target of
  the violated constraint and its message, or a validation error with its message.
\<close>

datatype PrismaError =
    PrismaClientKnownRequestError string string string
  | PrismaClientValidationError string

definition P2002 :: "string \<Rightarrow> PrismaError" where
  "P2002 target = PrismaClientKnownRequestError ''P2002'' target ''Unique constraint failed''"

definition P2025 :: PrismaError where
  "P2025 = PrismaClientKnownRequestError ''P2025'' [] ''Record to update not found.''"

text \<open>What the gateway client rejects with: an API error (status code, code,
  description) or a plain error with a message.\<close>

datatype GatewayFailure = ApiError nat string string | PlainError string

datatype Caught = CaughtPrisma PrismaError | CaughtGateway GatewayFailure | CaughtHttp HttpException

fun PaymentStatus_toString :: "PaymentStatus \<Rightarrow> string" where
  "PaymentStatus_toString PENDING = ''PENDING''"
| "PaymentStatus_toString COMPLETED = ''COMPLETED''"
| "PaymentStatus_toString FAILED = ''FAILED''"

fun BookingStatus_toString :: "BookingStatus \<Rightarrow> string" where
  "BookingStatus_toString BookingStatus_PENDING = ''PENDING''"
| "BookingStatus_toString APPROVED = ''APPROVED''"
| "BookingStatus_toString REJECTED = ''REJECTED''"

section \<open>Store operations\<close>

definition payment_findUnique :: "string \<Rightarrow> state \<Rightarrow> Payment option" where
  "payment_findUnique pid s = find (\<lambda>p. payment_id p = pid) (payment_tbl s)"

definition booking_findUnique :: "string \<Rightarrow> state \<Rightarrow> Booking option" where
  "booking_findUnique bid s = find (\<lambda>b. booking_id b = bid) (booking_tbl s)"

definition advertisementSlot_findUnique :: "string \<Rightarrow> state \<Rightarrow> AdvertisementSlot option" where
  "advertisementSlot_findUnique sid s = find (\<lambda>x. slot_id x = sid) (advertisementSlot_tbl s)"

definition radioStation_findUnique :: "string \<Rightarrow> state \<Rightarrow> RadioStation option" where
  "radioStation_findUnique sid s = find (\<lambda>x. station_id x = sid) (radioStation_tbl s)"

text \<open>
  The \<open>data\<close> object of \<open>payment.update\<close>: each field is either left out or set. The two
  call sites set \<open>paymentStatus\<close> alone, or \<open>paymentStatus\<close>, \<open>razorpayPaymentId\<close> and
  \<open>razorpaySignature\<close>.
\<close>

record PaymentUpdateInput =
  data_paymentStatus :: "PaymentStatus option"
  data_razorpayPaymentId :: "string option"
  data_razorpaySignature :: "string option"

definition apply_PaymentUpdateInput :: "PaymentUpdateInput \<Rightarrow> Payment \<Rightarrow> Payment" where
  "apply_PaymentUpdateInput d p =
     p\<lparr>paymentStatus := (case data_paymentStatus d of None \<Rightarrow> paymentStatus p | Some v \<Rightarrow> v),
       razorpayPaymentId := (case data_razorpayPaymentId d of None \<Rightarrow> razorpayPaymentId p | Some v \<Rightarrow> Some v),
       razorpaySignature := (case data_razorpaySignature d of None \<Rightarrow> razorpaySignature p | Some v \<Rightarrow> Some v)\<rparr>"

text \<open>
  \<open>payment.update({where: {id}, data})\<close>. The record is selected by its id and by
  nothing else. It fails with P2025 when no record has the id, and with P2002 when the
  new \<open>razorpayPaymentId\<close> (declared \<open>@unique\<close>) is already held by another record.
  The id is the primary key of its collection: \<open>findUnique\<close> returns the record that has
  it, and an update or a delete addresses the rows that have it.
\<close>

definition payment_update ::
  "string \<Rightarrow> PaymentUpdateInput \<Rightarrow> state \<Rightarrow> PrismaError + (Payment \<times> state)" where
  "payment_update pid d s =
     (case payment_findUnique pid s of
        None \<Rightarrow> Inl P2025
      | Some p \<Rightarrow>
          (case data_razorpayPaymentId d of
             Some v \<Rightarrow>
               if list_ex (\<lambda>q. payment_id q \<noteq> pid \<and> razorpayPaymentId q = Some v) (payment_tbl s)
               then Inl (P2002 ''razorpayPaymentId'')
               else Inr (apply_PaymentUpdateInput d p,
                         s\<lparr>payment_tbl := map (\<lambda>q. if payment_id q = pid
                                                 then apply_PaymentUpdateInput d q else q)
                                               (payment_tbl s)\<rparr>)
           | None \<Rightarrow>
               Inr (apply_PaymentUpdateInput d p,
                    s\<lparr>payment_tbl := map (\<lambda>q. if payment_id q = pid
                                            then apply_PaymentUpdateInput d q else q)
                                          (payment_tbl s)\<rparr>)))"

text \<open>\<open>advertisementSlot.update({where: {id}, data: {availabilityStatus}})\<close>.\<close>

definition advertisementSlot_update ::
  "string \<Rightarrow> SlotStatus \<Rightarrow> state \<Rightarrow> PrismaError + (AdvertisementSlot \<times> state)" where
  "advertisementSlot_update sid st s =
     (case advertisementSlot_findUnique sid s of
        None \<Rightarrow> Inl P2025
      | Some slot \<Rightarrow>
          Inr (slot\<lparr>availabilityStatus := st\<rparr>,
               s\<lparr>advertisementSlot_tbl := map (\<lambda>x. if slot_id x = sid
                                                  then x\<lparr>availabilityStatus := st\<rparr> else x)
                                                (advertisementSlot_tbl s)\<rparr>))"

section \<open>PaymentService.completePayment\<close>

record Body =
  body_razorpayOrderId :: string
  body_razorpayPaymentId :: string
  body_razorpaySignature :: string

record CompleteResult =
  message :: string
  bookingId :: string
  slotId :: string

record Order =
  order_id :: string
  order_amount :: number
  order_currency :: string

text \<open>
  The environment of the payment service, that is everything it reads that is neither
  an argument nor in the store: the key secret of the process environment; the keyed
  hash of the \<open>crypto\<close> module (\<open>createHmac('sha256', key).update(msg).digest('hex')\<close>),
  a library function taken as a parameter; the eight hex digits of
  \<open>randomBytes(4)\<close>; the clock; the answer of the gateway to an order; the id the
  store gives to the next payment; and the outcome of the mail transport (\<open>None\<close> when
  the mail went out, the error's message otherwise).
\<close>

record Env =
  RAZORPAY_KEYSECRET :: string
  createHmac_sha256_hex :: "string \<Rightarrow> string \<Rightarrow> string"
  randomBytes_hex :: string
  now_toISOString :: string
  orders_create :: "OrderOptions \<Rightarrow> GatewayFailure + Order"
  auto_ObjectId :: string
  transporter_sendMail :: "MailOptions \<Rightarrow> string option"

text \<open>
  The function reads the store once (\<open>payment.findUnique\<close> with its booking) and
  decides from that snapshot alone what to do; it then performs at most one write. The
  two halves are separated at that \<open>await\<close>, since another request can run between them.
  \<open>Verdict\<close> is the outcome of the first half: an exception thrown before any write, the
  early return for a completed payment, or one of the two writes (mark FAILED after a
  signature mismatch; the transaction, with the booking id and the slot id it needs).
  The test \<open>!x\<close> of a string is the test for the empty string.
\<close>

datatype Verdict =
    Reject HttpException
  | AlreadyCompleted CompleteResult
  | SignatureInvalid
  | SignatureValid string string

definition completePayment_load :: "Env \<Rightarrow> string \<Rightarrow> Body \<Rightarrow> state \<Rightarrow> Verdict" where
  "completePayment_load env paymentId body s =
     (if paymentId = [] \<or> body_razorpayOrderId body = [] \<or> body_razorpayPaymentId body = []
         \<or> body_razorpaySignature body = []
      then Reject (HttpException ''Missing required payment details for verification.'' BAD_REQUEST)
      else case payment_findUnique paymentId s of
        None \<Rightarrow> Reject (HttpException ''Payment record not found.'' NOT_FOUND)
      | Some payment \<Rightarrow>
         (case booking_findUnique (payment_bookingId payment) s of
            None \<Rightarrow> Reject (HttpException ''Associated booking or slot not found for this payment.''
                               INTERNAL_SERVER_ERROR)
          | Some booking \<Rightarrow>
             if booking_slotId booking = []
             then Reject (HttpException ''Associated booking or slot not found for this payment.''
                            INTERNAL_SERVER_ERROR)
             else if paymentStatus payment = COMPLETED
             then AlreadyCompleted \<lparr>message = ''Payment already verified and completed.'',
                                     bookingId = payment_bookingId payment,
                                     slotId = booking_slotId booking\<rparr>
             else if paymentStatus payment \<noteq> PENDING
             then Reject (HttpException (''Payment cannot be completed in its current state: ''
                                          @ PaymentStatus_toString (paymentStatus payment))
                            BAD_REQUEST)
             else (case razorpayOrderId payment of
                None \<Rightarrow> Reject (HttpException ''Order ID mismatch.'' BAD_REQUEST)
              | Some storedOrderId \<Rightarrow>
                 if storedOrderId \<noteq> body_razorpayOrderId body
                 then Reject (HttpException ''Order ID mismatch.'' BAD_REQUEST)
                 else let generatedSignature =
                            createHmac_sha256_hex env (RAZORPAY_KEYSECRET env)
                              (storedOrderId @ ''|'' @ body_razorpayPaymentId body)
                      in if generatedSignature \<noteq> body_razorpaySignature body
                         then SignatureInvalid
                         else SignatureValid (payment_bookingId payment) (booking_slotId booking))))"

text \<open>
  \<open>$transaction([payment.update, advertisementSlot.update])\<close>: both updates or none.
  On an error the caller keeps the state it had.
\<close>

definition completePayment_transaction ::
  "string \<Rightarrow> Body \<Rightarrow> string \<Rightarrow> state \<Rightarrow> PrismaError + (Payment \<times> AdvertisementSlot \<times> state)" where
  "completePayment_transaction paymentId body sid s =
     (case payment_update paymentId
             \<lparr>data_paymentStatus = Some COMPLETED,
              data_razorpayPaymentId = Some (body_razorpayPaymentId body),
              data_razorpaySignature = Some (body_razorpaySignature body)\<rparr> s of
        Inl e \<Rightarrow> Inl e
      | Inr (updatedPayment, s1) \<Rightarrow>
          (case advertisementSlot_update sid BOOKED s1 of
             Inl e \<Rightarrow> Inl e
           | Inr (updatedSlot, s2) \<Rightarrow> Inr (updatedPayment, updatedSlot, s2)))"

definition completePayment_write ::
  "string \<Rightarrow> Body \<Rightarrow> Verdict \<Rightarrow> state \<Rightarrow> (HttpException + CompleteResult) \<times> state" where
  "completePayment_write paymentId body v s =
     (case v of
        Reject e \<Rightarrow> (Inl e, s)
      | AlreadyCompleted r \<Rightarrow> (Inr r, s)
      | SignatureInvalid \<Rightarrow>
          (case payment_update paymentId
                  \<lparr>data_paymentStatus = Some FAILED, data_razorpayPaymentId = None,
                   data_razorpaySignature = None\<rparr> s of
             Inl e \<Rightarrow> (Inl (HttpException ''Internal server error'' INTERNAL_SERVER_ERROR), s)
           | Inr (p, s') \<Rightarrow> (Inl (HttpException ''Invalid payment signature.'' BAD_REQUEST), s'))
      | SignatureValid bid sid \<Rightarrow>
          (case completePayment_transaction paymentId body sid s of
             Inl e \<Rightarrow>
               (Inl (HttpException
                  ''Payment verified, but failed to update booking/slot status in database. Please contact support immediately.''
                  INTERNAL_SERVER_ERROR), s)
           | Inr (updatedPayment, updatedSlot, s') \<Rightarrow>
               (Inr \<lparr>message = ''Payment verified successfully. Slot booked. Awaiting admin approval for booking.'',
                     bookingId = bid,
                     slotId = slot_id updatedSlot\<rparr>, s')))"

text \<open>A call that is not interrupted: the write follows the load on the same state.\<close>

definition completePayment ::
  "Env \<Rightarrow> string \<Rightarrow> Body \<Rightarrow> state \<Rightarrow> (HttpException + CompleteResult) \<times> state" where
  "completePayment env paymentId body s =
     completePayment_write paymentId body (completePayment_load env paymentId body s) s"

section \<open>PaymentService.createPayment\<close>

record CreatePaymentResult =
  result_paymentId :: string
  result_orderId :: string
  result_amount :: number
  result_currency :: string

text \<open>
  \<open>payment.create\<close> with the booking and the user connected by id. \<open>amountInPaise\<close> is
  declared \<open>Int\<close>: a number that is not a 32-bit integer is refused by the client's
  validation. The connected records must exist (P2025), and \<open>bookingId\<close> and
  \<open>razorpayOrderId\<close> are declared \<open>@unique\<close> (P2002).
\<close>

definition payment_create ::
  "Env \<Rightarrow> string \<Rightarrow> string \<Rightarrow> number \<Rightarrow> string \<Rightarrow> string \<Rightarrow> string \<Rightarrow> state
     \<Rightarrow> PrismaError + (Payment \<times> state)" where
  "payment_create env bid uid amountPaise cur orderId tid s =
     (case amountPaise of
        Finite m e \<Rightarrow>
          if e \<noteq> 0 \<or> m < - (2 ^ 31) \<or> 2 ^ 31 \<le> m
          then Inl (PrismaClientValidationError ''Invalid value provided. Expected Int.'')
          else if booking_findUnique bid s = None \<or> uid \<notin> set (user_ids s)
          then Inl P2025
          else if list_ex (\<lambda>q. payment_bookingId q = bid) (payment_tbl s)
          then Inl (P2002 ''bookingId'')
          else if list_ex (\<lambda>q. razorpayOrderId q = Some orderId) (payment_tbl s)
          then Inl (P2002 ''razorpayOrderId'')
          else let payment = \<lparr>payment_id = auto_ObjectId env, payment_bookingId = bid,
                               payment_userId = uid, amountInPaise = m, currency = cur,
                               paymentStatus = PENDING, transactionId = tid,
                               paymentDate = now_toISOString env,
                               razorpayOrderId = Some orderId, razorpayPaymentId = None,
                               razorpaySignature = None\<rparr>
               in Inr (payment, s\<lparr>payment_tbl := payment_tbl s @ [payment]\<rparr>)
      | _ \<Rightarrow> Inl (PrismaClientValidationError ''Invalid value provided. Expected Int.''))"

text \<open>
  \<open>SendMail\<close>. The html body of the mail is kept as its parts (station name, amount,
  payment id); the amount is the payment's \<open>amountInPaise\<close>, which the body shows
  divided by 100.
\<close>

definition SendMail ::
  "Env \<Rightarrow> string \<Rightarrow> string \<Rightarrow> int \<Rightarrow> string \<Rightarrow> state \<Rightarrow> (HttpException + string) \<times> state" where
  "SendMail env name email paise paymentID s =
     (let mailOptions = \<lparr>mail_to = email, mail_stationName = name, mail_amountInPaise = paise,
                          mail_paymentID = paymentID\<rparr>
      in case transporter_sendMail env mailOptions of
           None \<Rightarrow> (Inr (''Mail Sent to '' @ email), s\<lparr>sent_mails := sent_mails s @ [mailOptions]\<rparr>)
         | Some msg \<Rightarrow> (Inl (HttpException (''Error sending email: '' @ msg) 500), s))"

text \<open>The \<open>catch\<close> block of \<open>createPayment\<close>: the exception thrown for what was caught.\<close>

definition createPayment_fallback :: "string \<Rightarrow> HttpException" where
  "createPayment_fallback msg =
     HttpException (if msg = [] then ''Failed to create payment order due to an unexpected error.''
                    else msg) INTERNAL_SERVER_ERROR"

fun createPayment_catch :: "Caught \<Rightarrow> HttpException" where
  "createPayment_catch (CaughtPrisma (PrismaClientKnownRequestError code target msg)) =
     (if code = ''P2002''
      then HttpException (''Database constraint violation: '' @ target) CONFLICT
      else HttpException (''Database error: '' @ msg) INTERNAL_SERVER_ERROR)"
| "createPayment_catch (CaughtPrisma (PrismaClientValidationError msg)) =
     createPayment_fallback msg"
| "createPayment_catch (CaughtGateway (ApiError statusCode code description)) =
     (if statusCode \<noteq> 0 \<and> code = ''BAD_REQUEST_ERROR''
      then HttpException (''Payment gateway validation error: ''
                           @ (if description = [] then ''Invalid input.'' else description))
             BAD_REQUEST
      else if statusCode \<noteq> 0
      then HttpException (''Razorpay Error: ''
                           @ (if description = [] then ''Unknown Razorpay Error'' else description)
                           @ '' (Code: '' @ (if code = [] then ''N/A'' else code) @ '')'')
             statusCode
      else createPayment_fallback [])"
| "createPayment_catch (CaughtGateway (PlainError msg)) = createPayment_fallback msg"
| "createPayment_catch (CaughtHttp (HttpException msg st)) = createPayment_fallback msg"

text \<open>
  \<open>createPayment\<close>. The amount is a number by its type, so of the first guard only the
  comparison \<open>amountInRupees <= 0\<close> remains. The order asked of the gateway is recorded
  in \<open>razorpay_orders\<close> whatever the gateway answers. A booking whose station is missing
  makes the lookup itself fail, outside the \<open>try\<close> block.
\<close>

definition createPayment ::
  "Env \<Rightarrow> string \<Rightarrow> string \<Rightarrow> number \<Rightarrow> string \<Rightarrow> state
     \<Rightarrow> (HttpException + CreatePaymentResult) \<times> state" where
  "createPayment env bid uid amountInRupees tid s =
     (if number_le_zero amountInRupees
      then (Inl (HttpException ''Invalid payment amount provided.'' BAD_REQUEST), s)
      else let amountPaise = Math_round (times_100 amountInRupees)
      in if number_le_zero amountPaise
         then (Inl (HttpException ''Amount must be positive.'' BAD_REQUEST), s)
         else case booking_findUnique bid s of
           None \<Rightarrow> (Inl (HttpException ''Booking not found.'' NOT_FOUND), s)
         | Some booking \<Rightarrow>
            (case radioStation_findUnique (booking_stationId booking) s of
               None \<Rightarrow> (Inl (HttpException ''Internal server error'' INTERNAL_SERVER_ERROR), s)
             | Some station \<Rightarrow>
                if bookingStatus booking \<noteq> BookingStatus_PENDING
                then (Inl (HttpException (''Booking status (''
                                           @ BookingStatus_toString (bookingStatus booking)
                                           @ '') does not allow payment.'') BAD_REQUEST), s)
                else let receiptId = take 40 (''rcpt_'' @ bid @ ''_'' @ randomBytes_hex env);
                         options = \<lparr>options_amount = amountPaise, options_currency = ''INR'',
                                    options_receipt = receiptId, notes_bookingId = bid,
                                    notes_userId = uid, notes_transactionId = tid,
                                    notes_clientDateTime = now_toISOString env\<rparr>;
                         s1 = s\<lparr>razorpay_orders := razorpay_orders s @ [options]\<rparr>
                     in (case orders_create env options of
                          Inl err \<Rightarrow> (Inl (createPayment_catch (CaughtGateway err)), s1)
                        | Inr order \<Rightarrow>
                           (case payment_create env bid uid amountPaise (order_currency order)
                                   (order_id order) tid s1 of
                              Inl err \<Rightarrow> (Inl (createPayment_catch (CaughtPrisma err)), s1)
                            | Inr (payment, s2) \<Rightarrow>
                               (case SendMail env (stationName station) (contactEmail station)
                                       (amountInPaise payment) (payment_id payment) s2 of
                                  (sent, s3) \<Rightarrow>
                                    (case sent of
                                       Inl err \<Rightarrow> (Inl (createPayment_catch (CaughtHttp err)), s3)
                                     | Inr ok \<Rightarrow>
                                         (Inr \<lparr>result_paymentId = payment_id payment,
                                               result_orderId = order_id order,
                                               result_amount = order_amount order,
                                               result_currency = order_currency order\<rparr>, s3)))))))"

section \<open>AdvertisementSlotService.remove\<close>

definition booking_count_slotId :: "string \<Rightarrow> state \<Rightarrow> nat" where
  "booking_count_slotId sid s = length (filter (\<lambda>b. booking_slotId b = sid) (booking_tbl s))"

text \<open>\<open>advertisementSlot.delete({where: {id}})\<close>: P2025 when no record has the id.\<close>

definition advertisementSlot_delete ::
  "string \<Rightarrow> state \<Rightarrow> PrismaError + (AdvertisementSlot \<times> state)" where
  "advertisementSlot_delete sid s =
     (case advertisementSlot_findUnique sid s of
        None \<Rightarrow> Inl P2025
      | Some slot \<Rightarrow>
          Inr (slot, s\<lparr>advertisementSlot_tbl :=
                          filter (\<lambda>x. slot_id x \<noteq> sid) (advertisementSlot_tbl s)\<rparr>))"

text \<open>Decimal digits of a count, for the messages that quote one.\<close>

fun nat_toString :: "nat \<Rightarrow> string" where
  "nat_toString n =
     (if n < 10 then [''0123456789'' ! n]
      else nat_toString (n div 10) @ [''0123456789'' ! (n mod 10)])"

declare nat_toString.simps [simp del]

record RemoveResult =
  remove_message :: string
  deletedSlot :: AdvertisementSlot

text \<open>
  \<open>remove\<close>: the lookup, the count of the bookings whose \<open>slotId\<close> is the slot's, and the
  delete with the \<open>catch\<close> block around it.
\<close>

definition remove :: "string \<Rightarrow> state \<Rightarrow> (HttpException + RemoveResult) \<times> state" where
  "remove sid s =
     (case advertisementSlot_findUnique sid s of
        None \<Rightarrow>
          (Inl (NotFoundException (''Advertisement Slot with ID \"'' @ sid @ ''\" not found.'')), s)
      | Some slotExists \<Rightarrow>
          let relatedBookingsCount = booking_count_slotId sid s
          in if relatedBookingsCount > 0
             then (Inl (ConflictException
                     (''Cannot delete this slot. It has '' @ nat_toString relatedBookingsCount
                      @ '' associated booking(s). Please cancel or reassign the bookings first.'')), s)
             else (case advertisementSlot_delete sid s of
                     Inr (slot, s') \<Rightarrow>
                       (Inr \<lparr>remove_message = ''Slot '' @ sid @ '' deleted successfully.'',
                             deletedSlot = slot\<rparr>, s')
                   | Inl (PrismaClientKnownRequestError code target msg) \<Rightarrow>
                       if code = ''P2014''
                       then (Inl (ConflictException
                               (''Deletion conflict: Slot '' @ sid
                                @ '' might still have associated bookings. Please refresh.'')), s)
                       else (Inl (InternalServerErrorException
                               (''Could not delete slot '' @ sid @ '' due to an internal error.'')), s)
                   | Inl (PrismaClientValidationError msg) \<Rightarrow>
                       (Inl (InternalServerErrorException
                          (''Could not delete slot '' @ sid @ '' due to an internal error.'')), s)))"

section \<open>Bookings\<close>

text \<open>
  \<open>booking.create\<close> as the schema constrains it: \<open>slotId\<close> of \<open>Booking\<close> is declared
  \<open>@unique\<close>, so the store refuses (P2002) a record whose slot is already referenced.
\<close>

definition booking_create :: "Booking \<Rightarrow> state \<Rightarrow> PrismaError + (Booking \<times> state)" where
  "booking_create b s =
     (if list_ex (\<lambda>x. booking_slotId x = booking_slotId b) (booking_tbl s)
      then Inl (P2002 ''slotId'')
      else Inr (b, s\<lparr>booking_tbl := booking_tbl s @ [b]\<rparr>))"

datatype BookingError = NotFound | Conflict

text \<open>
  Modelled from the spec: the booking service (\<open>createBooking\<close>) is not among the sources,
  only its request object and the schema are. The spec: it fails with NotFound if the
  slot, the station or the RJ is missing; it inserts a Booking with status PENDING and
  touches nothing else; it fails with Conflict when the store rejects the insert because
  the slot already has a booking, with no existence check of its own before the insert.
  The spec names no error for a slot that belongs to another station or RJ, and the model
  has no check for it. The id and the date of the new record are given by the store.
\<close>

definition createBooking ::
  "string \<Rightarrow> string \<Rightarrow> string \<Rightarrow> string \<Rightarrow> string \<Rightarrow> string \<Rightarrow> state
     \<Rightarrow> (BookingError + Booking) \<times> state" where
  "createBooking new_id now uid stid rid sid s =
     (if advertisementSlot_findUnique sid s = None \<or> radioStation_findUnique stid s = None
         \<or> find (\<lambda>r. rj_id r = rid) (rj_tbl s) = None
      then (Inl NotFound, s)
      else case booking_create \<lparr>booking_id = new_id, booking_userId = uid,
                                 booking_stationId = stid, booking_rjId = rid,
                                 booking_slotId = sid, bookingStatus = BookingStatus_PENDING,
                                 bookingDate = now\<rparr> s of
             Inl e \<Rightarrow> (Inl Conflict, s)
           | Inr (b, s') \<Rightarrow> (Inr b, s'))"

section \<open>Runs of requests\<close>

text \<open>
  The path condition of the first guards of \<open>completePayment\<close>: all four values are
  supplied, the payment \<open>p\<close> is found, and so is its booking \<open>b\<close> with a slot reference.
\<close>

definition passes_guards :: "string \<Rightarrow> Body \<Rightarrow> state \<Rightarrow> Payment \<Rightarrow> Booking \<Rightarrow> bool" where
  "passes_guards paymentId body s p b \<longleftrightarrow>
     paymentId \<noteq> [] \<and> body_razorpayOrderId body \<noteq> [] \<and> body_razorpayPaymentId body \<noteq> []
     \<and> body_razorpaySignature body \<noteq> []
     \<and> payment_findUnique paymentId s = Some p
     \<and> booking_findUnique (payment_bookingId p) s = Some b
     \<and> booking_slotId b \<noteq> []"

definition payment_status :: "string \<Rightarrow> state \<Rightarrow> PaymentStatus option" where
  "payment_status pid s = map_option paymentStatus (payment_findUnique pid s)"

text \<open>
  Calls of \<open>completePayment\<close> that run one after the other, each on the state the one
  before left. The trace keeps, for each call, the payment id, the verdict of its load and
  its outcome.
\<close>

fun run_calls ::
  "Env \<Rightarrow> (string \<times> Body) list \<Rightarrow> state
     \<Rightarrow> (string \<times> Verdict \<times> (HttpException + CompleteResult)) list \<times> state" where
  "run_calls env [] s = ([], s)"
| "run_calls env (c # cs) s =
     (let v = completePayment_load env (fst c) (snd c) s;
          out = completePayment_write (fst c) (snd c) v s;
          rest = run_calls env cs (snd out)
      in ((fst c, v, fst out) # fst rest, snd rest))"

text \<open>A call committed for payment \<open>pid\<close>: its transaction ran and succeeded.\<close>

fun is_commit :: "string \<Rightarrow> string \<times> Verdict \<times> (HttpException + CompleteResult) \<Rightarrow> bool" where
  "is_commit pid (pid', SignatureValid bid sid, Inr r) = (pid' = pid)"
| "is_commit pid (pid', v, r) = False"

text \<open>The requests of the model, each with the environment it runs in.\<close>

datatype Request =
    CreateBooking string string string string string string
  | CreatePayment string string number string
  | CompletePayment string Body
  | RemoveSlot string

fun handle :: "Env \<Rightarrow> Request \<Rightarrow> state \<Rightarrow> state" where
  "handle env (CreateBooking new_id now uid stid rid sid) s =
     snd (createBooking new_id now uid stid rid sid s)"
| "handle env (CreatePayment bid uid amount tid) s = snd (createPayment env bid uid amount tid s)"
| "handle env (CompletePayment pid body) s = snd (completePayment env pid body s)"
| "handle env (RemoveSlot sid) s = snd (remove sid s)"

fun handle_all :: "(Env \<times> Request) list \<Rightarrow> state \<Rightarrow> state" where
  "handle_all [] s = s"
| "handle_all (r # rs) s = handle_all rs (handle (fst r) (snd r) s)"

text \<open>No two bookings reference the same slot.\<close>

definition slot_reference_unique :: "state \<Rightarrow> bool" where
  "slot_reference_unique s \<longleftrightarrow> distinct (map booking_slotId (booking_tbl s))"

section \<open>Examples\<close>

text \<open>
  A small store: one user, one station with one RJ and one available slot, a pending
  booking of that slot and its pending payment for the gateway order \<open>order_A\<close>. The
  environment's keyed hash is a stand-in that joins key and message; the service only
  ever compares its output with the supplied signature.
\<close>

definition example_env :: Env where
  "example_env =
     \<lparr>RAZORPAY_KEYSECRET = ''secret'',
      createHmac_sha256_hex = (\<lambda>key msg. key @ ''#'' @ msg),
      randomBytes_hex = ''0a1b2c3d'',
      now_toISOString = ''2025-01-01T00:00:00.000Z'',
      orders_create = (\<lambda>opts. Inr \<lparr>order_id = ''order_B'', order_amount = options_amount opts,
                                    order_currency = options_currency opts\<rparr>),
      auto_ObjectId = ''pay2'',
      transporter_sendMail = (\<lambda>m. None)\<rparr>"

definition example_station :: RadioStation where
  "example_station = \<lparr>station_id = ''st1'', stationName = ''Radio One'', location = ''Pune'',
                       contactEmail = ''one@example.org'', contactPhone = ''100''\<rparr>"

definition example_rj :: RJ where
  "example_rj = \<lparr>rj_id = ''rj1'', rj_stationId = ''st1'', rjName = ''Asha'',
                  showName = ''Morning'', showTiming = ''7-9''\<rparr>"

definition example_slot :: AdvertisementSlot where
  "example_slot = \<lparr>slot_id = ''slot1'', slot_stationId = ''st1'', slot_rjId = ''rj1'',
                    slotTime = ''2025-02-01T07:30:00.000Z'', availabilityStatus = AVAILABLE,
                    price = Finite 200 0\<rparr>"

definition example_booking :: Booking where
  "example_booking = \<lparr>booking_id = ''b1'', booking_userId = ''u1'', booking_stationId = ''st1'',
                       booking_rjId = ''rj1'', booking_slotId = ''slot1'',
                       bookingStatus = BookingStatus_PENDING,
                       bookingDate = ''2025-01-01T00:00:00.000Z''\<rparr>"

definition example_payment :: Payment where
  "example_payment = \<lparr>payment_id = ''pay1'', payment_bookingId = ''b1'', payment_userId = ''u1'',
                       amountInPaise = 20000, currency = ''INR'', paymentStatus = PENDING,
                       transactionId = ''t1'', paymentDate = ''2025-01-01T00:00:00.000Z'',
                       razorpayOrderId = Some ''order_A'', razorpayPaymentId = None,
                       razorpaySignature = None\<rparr>"

definition example_state :: state where
  "example_state =
     \<lparr>payment_tbl = [example_payment], booking_tbl = [example_booking],
      advertisementSlot_tbl = [example_slot], radioStation_tbl = [example_station],
      rj_tbl = [example_rj], user_ids = [''u1''], razorpay_orders = [], sent_mails = []\<rparr>"

text \<open>The same store before the booking and the payment were made.\<close>

definition example_state_unbooked :: state where
  "example_state_unbooked = example_state\<lparr>payment_tbl := [], booking_tbl := []\<rparr>"

text \<open>The callback of the gateway for \<open>order_A\<close>, and one whose signature is wrong.\<close>

definition example_body :: Body where
  "example_body = \<lparr>body_razorpayOrderId = ''order_A'', body_razorpayPaymentId = ''pay_X'',
                    body_razorpaySignature = ''secret#order_A|pay_X''\<rparr>"

definition example_body_forged :: Body where
  "example_body_forged = example_body\<lparr>body_razorpaySignature := ''forged''\<rparr>"

text \<open>
  The double nearest to 199.995: \<open>1759174623976489 / 2 ^ 43\<close>
  (\<open>0x1.8ffd70a3d70a4p+7\<close>).
\<close>

definition amount_199_995 :: number where
  "amount_199_995 = Finite 1759174623976489 (- 43)"

text \<open>A callback that names another order, and the results and states of the examples.\<close>

definition example_body_other_order :: Body where
  "example_body_other_order = example_body\<lparr>body_razorpayOrderId := ''order_Z''\<rparr>"

definition example_result :: CompleteResult where
  "example_result =
     \<lparr>message = ''Payment verified successfully. Slot booked. Awaiting admin approval for booking.'',
      bookingId = ''b1'', slotId = ''slot1''\<rparr>"

definition example_state_completed :: state where
  "example_state_completed =
     example_state\<lparr>payment_tbl := [example_payment\<lparr>paymentStatus := COMPLETED,
                                        razorpayPaymentId := Some ''pay_X'',
                                        razorpaySignature := Some ''secret#order_A|pay_X''\<rparr>],
                   advertisementSlot_tbl := [example_slot\<lparr>availabilityStatus := BOOKED\<rparr>]\<rparr>"

definition example_state_failed :: state where
  "example_state_failed =
     example_state\<lparr>payment_tbl := [example_payment\<lparr>paymentStatus := FAILED\<rparr>]\<rparr>"

section \<open>Lemmas about the store and the payment service\<close>

lemma find_map_same:
  assumes "\<And>x. k (f x) = k x"
  shows "find (\<lambda>x. k x = a) (map (\<lambda>x. if k x = a then f x else x) xs)
         = map_option f (find (\<lambda>x. k x = a) xs)"
  using assms by (induction xs) auto

lemma find_map_other:
  assumes "\<And>x. k (f x) = k x" and "b \<noteq> a"
  shows "find (\<lambda>x. k x = b) (map (\<lambda>x. if k x = a then f x else x) xs)
         = find (\<lambda>x. k x = b) xs"
  using assms by (induction xs) auto

lemma find_Some_key: "find (\<lambda>x. k x = a) xs = Some y \<Longrightarrow> k y = a"
  by (induction xs) (auto split: if_splits)

lemma payment_id_apply [simp]: "payment_id (apply_PaymentUpdateInput d p) = payment_id p"
  by (simp add: apply_PaymentUpdateInput_def)

lemma payment_bookingId_apply [simp]:
  "payment_bookingId (apply_PaymentUpdateInput d p) = payment_bookingId p"
  by (simp add: apply_PaymentUpdateInput_def)

lemma payment_update_Inr:
  assumes "payment_update pid d s = Inr (p', s')"
  shows "\<exists>p. payment_findUnique pid s = Some p \<and> p' = apply_PaymentUpdateInput d p
           \<and> s' = s\<lparr>payment_tbl := map (\<lambda>q. if payment_id q = pid
                                           then apply_PaymentUpdateInput d q else q)
                                         (payment_tbl s)\<rparr>"
  using assms by (auto simp: payment_update_def split: option.splits if_splits)

lemma advertisementSlot_update_Inr:
  assumes "advertisementSlot_update sid st s = Inr (x', s')"
  shows "\<exists>x. advertisementSlot_findUnique sid s = Some x \<and> x' = x\<lparr>availabilityStatus := st\<rparr>
           \<and> slot_id x' = sid
           \<and> s' = s\<lparr>advertisementSlot_tbl := map (\<lambda>x. if slot_id x = sid
                                                  then x\<lparr>availabilityStatus := st\<rparr> else x)
                                                (advertisementSlot_tbl s)\<rparr>"
  using assms
  by (auto simp: advertisementSlot_update_def advertisementSlot_findUnique_def
           split: option.splits dest: find_Some_key)

text \<open>The transaction, spelled out.\<close>

lemma completePayment_transaction_eq:
  assumes "payment_findUnique pid s = Some p"
  shows "completePayment_transaction pid body sid s =
     (if list_ex (\<lambda>q. payment_id q \<noteq> pid \<and> razorpayPaymentId q = Some (body_razorpayPaymentId body))
           (payment_tbl s)
      then Inl (P2002 ''razorpayPaymentId'')
      else case advertisementSlot_findUnique sid s of
        None \<Rightarrow> Inl P2025
      | Some slot \<Rightarrow>
          Inr (p\<lparr>paymentStatus := COMPLETED,
                 razorpayPaymentId := Some (body_razorpayPaymentId body),
                 razorpaySignature := Some (body_razorpaySignature body)\<rparr>,
               slot\<lparr>availabilityStatus := BOOKED\<rparr>,
               s\<lparr>payment_tbl := map (\<lambda>q. if payment_id q = pid
                                       then q\<lparr>paymentStatus := COMPLETED,
                                              razorpayPaymentId := Some (body_razorpayPaymentId body),
                                              razorpaySignature := Some (body_razorpaySignature body)\<rparr>
                                       else q) (payment_tbl s),
                 advertisementSlot_tbl := map (\<lambda>x. if slot_id x = sid
                                                  then x\<lparr>availabilityStatus := BOOKED\<rparr> else x)
                                                (advertisementSlot_tbl s)\<rparr>))"
  using assms
  by (simp add: completePayment_transaction_def payment_update_def advertisementSlot_update_def
        advertisementSlot_findUnique_def apply_PaymentUpdateInput_def split: option.splits)

lemma load_eq:
  assumes "passes_guards pid body s p b"
  shows "completePayment_load env pid body s =
     (if paymentStatus p = COMPLETED
      then AlreadyCompleted \<lparr>message = ''Payment already verified and completed.'',
                             bookingId = payment_bookingId p, slotId = booking_slotId b\<rparr>
      else if paymentStatus p \<noteq> PENDING
      then Reject (HttpException (''Payment cannot be completed in its current state: ''
                                   @ PaymentStatus_toString (paymentStatus p)) BAD_REQUEST)
      else if razorpayOrderId p \<noteq> Some (body_razorpayOrderId body)
      then Reject (HttpException ''Order ID mismatch.'' BAD_REQUEST)
      else if createHmac_sha256_hex env (RAZORPAY_KEYSECRET env)
                (body_razorpayOrderId body @ ''|'' @ body_razorpayPaymentId body)
              \<noteq> body_razorpaySignature body
      then SignatureInvalid
      else SignatureValid (payment_bookingId p) (booking_slotId b))"
  using assms
  by (auto simp: passes_guards_def completePayment_load_def Let_def split: option.splits)


lemma write_Reject [simp]: "completePayment_write pid body (Reject e) s = (Inl e, s)"
  by (simp add: completePayment_write_def)

lemma write_AlreadyCompleted [simp]:
  "completePayment_write pid body (AlreadyCompleted r) s = (Inr r, s)"
  by (simp add: completePayment_write_def)

lemma write_SignatureInvalid:
  assumes "payment_findUnique pid s = Some p"
  shows "completePayment_write pid body SignatureInvalid s =
           (Inl (HttpException ''Invalid payment signature.'' BAD_REQUEST),
            s\<lparr>payment_tbl := map (\<lambda>q. if payment_id q = pid then q\<lparr>paymentStatus := FAILED\<rparr> else q)
                                 (payment_tbl s)\<rparr>)"
  using assms
  by (simp add: completePayment_write_def payment_update_def apply_PaymentUpdateInput_def)

lemma load_SignatureValidD:
  assumes "completePayment_load env pid body s = SignatureValid bid sid"
  shows "\<exists>p b. passes_guards pid body s p b \<and> paymentStatus p = PENDING
           \<and> bid = payment_bookingId p \<and> sid = booking_slotId b"
  using assms
  by (auto simp: completePayment_load_def passes_guards_def Let_def
           split: if_splits option.splits intro: PaymentStatus.exhaust)

lemma load_SignatureInvalidD:
  assumes "completePayment_load env pid body s = SignatureInvalid"
  shows "\<exists>p b. passes_guards pid body s p b \<and> paymentStatus p = PENDING"
  using assms
  by (auto simp: completePayment_load_def passes_guards_def Let_def
           split: if_splits option.splits intro: PaymentStatus.exhaust)

lemma write_payment_tbl:
  "payment_tbl (snd (completePayment_write pid body v s)) = payment_tbl s
   \<or> (\<exists>d. payment_tbl (snd (completePayment_write pid body v s))
            = map (\<lambda>q. if payment_id q = pid then apply_PaymentUpdateInput d q else q) (payment_tbl s))"
proof (cases v)
  case SignatureInvalid
  then show ?thesis
    by (auto simp: completePayment_write_def split: sum.splits dest!: payment_update_Inr)
next
  case (SignatureValid bid sid)
  then show ?thesis
    by (auto simp: completePayment_write_def completePayment_transaction_def
             split: sum.splits dest!: payment_update_Inr advertisementSlot_update_Inr)
qed simp_all

lemma write_other_payment:
  assumes "pid \<noteq> pid'"
  shows "payment_findUnique pid (snd (completePayment_write pid' body v s)) = payment_findUnique pid s"
  using write_payment_tbl[of pid' body v s] assms
  by (auto simp: payment_findUnique_def find_map_other[where k=payment_id])

lemma not_pending_call:
  assumes "payment_status pid s \<noteq> Some PENDING"
  shows "payment_status pid (snd (completePayment_write pid' body (completePayment_load env pid' body s) s))
           = payment_status pid s"
proof (cases "pid' = pid")
  case False
  then show ?thesis by (simp add: payment_status_def write_other_payment)
next
  case True
  have "completePayment_load env pid body s \<noteq> SignatureInvalid"
    using assms load_SignatureInvalidD[of env pid body s]
    by (auto simp: payment_status_def passes_guards_def)
  moreover have "completePayment_load env pid body s \<noteq> SignatureValid bid sid" for bid sid
    using assms load_SignatureValidD[of env pid body s bid sid]
    by (auto simp: payment_status_def passes_guards_def)
  ultimately show ?thesis using True
    by (cases "completePayment_load env pid body s") auto
qed

lemma commit_sets_COMPLETED:
  assumes "completePayment_write pid body (SignatureValid bid sid) s = (Inr r, s')"
  shows "payment_status pid s' = Some COMPLETED"
  using assms
  by (auto simp: completePayment_write_def completePayment_transaction_def payment_status_def
        payment_findUnique_def find_map_same[where k=payment_id] apply_PaymentUpdateInput_def
        split: sum.splits dest!: payment_update_Inr advertisementSlot_update_Inr)

lemma run_calls_not_pending:
  assumes "payment_status pid s \<noteq> Some PENDING"
  shows "filter (is_commit pid) (fst (run_calls env cs s)) = []
         \<and> payment_status pid (snd (run_calls env cs s)) = payment_status pid s"
  using assms
proof (induction cs arbitrary: s)
  case Nil
  then show ?case by simp
next
  case (Cons c cs)
  let ?v = "completePayment_load env (fst c) (snd c) s"
  let ?out = "completePayment_write (fst c) (snd c) ?v s"
  have st: "payment_status pid (snd ?out) = payment_status pid s"
    using Cons.prems by (rule not_pending_call)
  have nc: "\<not> is_commit pid (fst c, ?v, fst ?out)"
  proof
    assume ic: "is_commit pid (fst c, ?v, fst ?out)"
    then obtain bid sid where v: "?v = SignatureValid bid sid" and "fst c = pid"
      by (cases ?v; cases "fst ?out") auto
    with load_SignatureValidD[of env "fst c" "snd c" s bid sid] Cons.prems
    show False by (auto simp: payment_status_def passes_guards_def)
  qed
  from Cons.IH[of "snd ?out"] st Cons.prems nc show ?case
    by (simp add: Let_def)
qed

lemma run_calls_commits_le_1:
  "length (filter (is_commit pid) (fst (run_calls env cs s))) \<le> 1"
proof (induction cs arbitrary: s)
  case Nil
  then show ?case by simp
next
  case (Cons c cs)
  let ?v = "completePayment_load env (fst c) (snd c) s"
  let ?out = "completePayment_write (fst c) (snd c) ?v s"
  show ?case
  proof (cases "is_commit pid (fst c, ?v, fst ?out)")
    case False
    then show ?thesis using Cons.IH[of "snd ?out"] by (simp add: Let_def)
  next
    case True
    then obtain bid sid r where v: "?v = SignatureValid bid sid" and c: "fst c = pid"
      and r: "fst ?out = Inr r"
      by (cases ?v; cases "fst ?out") auto
    have "completePayment_write pid (snd c) (SignatureValid bid sid) s = (Inr r, snd ?out)"
      using v c r by (metis prod.collapse)
    then have "payment_status pid (snd ?out) = Some COMPLETED"
      by (rule commit_sets_COMPLETED)
    then have "filter (is_commit pid) (fst (run_calls env cs (snd ?out))) = []"
      using run_calls_not_pending[of pid "snd ?out" env cs] by simp
    then show ?thesis using True by (simp add: Let_def)
  qed
qed


lemma write_booking_tbl [simp]:
  "booking_tbl (snd (completePayment_write pid body v s)) = booking_tbl s"
  by (cases v)
     (auto simp: completePayment_write_def completePayment_transaction_def
           split: sum.splits dest!: payment_update_Inr advertisementSlot_update_Inr)

lemma write_payment_bookingId:
  "map_option payment_bookingId (payment_findUnique pid (snd (completePayment_write pid' body v s)))
     = map_option payment_bookingId (payment_findUnique pid s)"
proof (cases "pid = pid'")
  case False
  then show ?thesis by (simp add: write_other_payment)
next
  case True
  then show ?thesis
    using write_payment_tbl[of pid' body v s]
    by (auto simp: payment_findUnique_def find_map_same[where k=payment_id] option.map_comp comp_def)
qed

lemma run_calls_booking_tbl [simp]:
  "booking_tbl (snd (run_calls env cs s)) = booking_tbl s"
  by (induction cs arbitrary: s) (simp_all add: Let_def)

lemma run_calls_payment_bookingId:
  "map_option payment_bookingId (payment_findUnique pid (snd (run_calls env cs s)))
     = map_option payment_bookingId (payment_findUnique pid s)"
  by (induction cs arbitrary: s) (simp_all add: Let_def write_payment_bookingId)

lemma FAILED_call:
  assumes "payment_status pid s = Some FAILED"
  shows "snd (completePayment env pid body s) = s \<and> isl (fst (completePayment env pid body s))"
proof -
  have a: "completePayment_load env pid body s \<noteq> SignatureInvalid"
    using assms load_SignatureInvalidD[of env pid body s]
    by (auto simp: payment_status_def passes_guards_def)
  have b: "completePayment_load env pid body s \<noteq> SignatureValid bid sid" for bid sid
    using assms load_SignatureValidD[of env pid body s bid sid]
    by (auto simp: payment_status_def passes_guards_def)
  have c: "completePayment_load env pid body s \<noteq> AlreadyCompleted r" for r
    using assms
    by (auto simp: completePayment_load_def payment_status_def Let_def split: if_splits option.splits)
  show ?thesis using a b c
    by (cases "completePayment_load env pid body s") (auto simp: completePayment_def)
qed

lemma signature_mismatch_eq:
  assumes "passes_guards pid body s p b" and "paymentStatus p = PENDING"
    and "razorpayOrderId p = Some (body_razorpayOrderId body)"
    and "createHmac_sha256_hex env (RAZORPAY_KEYSECRET env)
           (body_razorpayOrderId body @ ''|'' @ body_razorpayPaymentId body)
         \<noteq> body_razorpaySignature body"
  shows "completePayment env pid body s =
           (Inl (HttpException ''Invalid payment signature.'' BAD_REQUEST),
            s\<lparr>payment_tbl := map (\<lambda>q. if payment_id q = pid then q\<lparr>paymentStatus := FAILED\<rparr> else q)
                                 (payment_tbl s)\<rparr>)"
proof -
  have f: "payment_findUnique pid s = Some p"
    using assms(1) by (simp add: passes_guards_def)
  have "completePayment_load env pid body s = SignatureInvalid"
    using assms by (simp add: load_eq)
  then show ?thesis by (simp add: completePayment_def write_SignatureInvalid[OF f])
qed

lemma commit_eq:
  assumes "passes_guards pid body s p b" and "paymentStatus p = PENDING"
    and "razorpayOrderId p = Some (body_razorpayOrderId body)"
    and "body_razorpaySignature body =
           createHmac_sha256_hex env (RAZORPAY_KEYSECRET env)
             (body_razorpayOrderId body @ ''|'' @ body_razorpayPaymentId body)"
  shows "completePayment env pid body s =
     (if advertisementSlot_findUnique (booking_slotId b) s \<noteq> None
         \<and> \<not> list_ex (\<lambda>q. payment_id q \<noteq> pid
                          \<and> razorpayPaymentId q = Some (body_razorpayPaymentId body)) (payment_tbl s)
      then (Inr \<lparr>message = ''Payment verified successfully. Slot booked. Awaiting admin approval for booking.'',
                 bookingId = payment_bookingId p, slotId = booking_slotId b\<rparr>,
            s\<lparr>payment_tbl := map (\<lambda>q. if payment_id q = pid
                                    then q\<lparr>paymentStatus := COMPLETED,
                                           razorpayPaymentId := Some (body_razorpayPaymentId body),
                                           razorpaySignature := Some (body_razorpaySignature body)\<rparr>
                                    else q) (payment_tbl s),
              advertisementSlot_tbl := map (\<lambda>x. if slot_id x = booking_slotId b
                                               then x\<lparr>availabilityStatus := BOOKED\<rparr> else x)
                                             (advertisementSlot_tbl s)\<rparr>)
      else (Inl (HttpException
                  ''Payment verified, but failed to update booking/slot status in database. Please contact support immediately.''
                  INTERNAL_SERVER_ERROR), s))"
proof -
  have f: "payment_findUnique pid s = Some p"
    using assms(1) by (simp add: passes_guards_def)
  have l: "completePayment_load env pid body s = SignatureValid (payment_bookingId p) (booking_slotId b)"
    using assms by (simp add: load_eq)
  show ?thesis
    unfolding completePayment_def l
    by (auto simp: completePayment_write_def completePayment_transaction_eq[OF f]
          advertisementSlot_findUnique_def
          split: option.splits dest: find_Some_key)
qed

section \<open>Lemmas about bookings, slots and amounts\<close>

lemma find_filter_none: "find (\<lambda>x. k x = a) (filter (\<lambda>x. k x \<noteq> a) xs) = None"
  by (induction xs) auto

lemma booking_create_unique:
  "slot_reference_unique s \<Longrightarrow> booking_create b s = Inr (b', s') \<Longrightarrow> slot_reference_unique s'"
  by (fastforce simp: booking_create_def slot_reference_unique_def list_ex_iff split: if_splits)

lemma createBooking_unique:
  "slot_reference_unique s \<Longrightarrow> slot_reference_unique (snd (createBooking i n u st r sid s))"
  by (auto simp: createBooking_def split: sum.splits dest: booking_create_unique)

lemma SendMail_booking_tbl [simp]: "booking_tbl (snd (SendMail env a b c d s)) = booking_tbl s"
  by (simp add: SendMail_def Let_def split: option.splits)

lemma payment_create_booking_tbl:
  "payment_create env bid uid a cur oid tid s = Inr (p, s') \<Longrightarrow> booking_tbl s' = booking_tbl s"
  by (auto simp: payment_create_def Let_def split: number.splits if_splits)

lemma createPayment_booking_tbl [simp]:
  "booking_tbl (snd (createPayment env bid uid a tid s)) = booking_tbl s"
  by (auto simp: createPayment_def Let_def
        split: option.splits sum.splits prod.splits
        dest!: payment_create_booking_tbl
        simp: SendMail_def)

lemma remove_booking_tbl [simp]: "booking_tbl (snd (remove sid s)) = booking_tbl s"
  by (auto simp: remove_def advertisementSlot_delete_def Let_def
        split: option.splits sum.splits PrismaError.splits)

lemma handle_unique:
  "slot_reference_unique s \<Longrightarrow> slot_reference_unique (handle env r s)"
proof (cases r)
  case (CreateBooking i n u st rj sid)
  then show "slot_reference_unique s \<Longrightarrow> ?thesis" by (simp add: createBooking_unique)
next
  case (CreatePayment bid uid a tid)
  then show "slot_reference_unique s \<Longrightarrow> ?thesis" by (simp add: slot_reference_unique_def)
next
  case (CompletePayment pid body)
  then show "slot_reference_unique s \<Longrightarrow> ?thesis"
    by (simp add: slot_reference_unique_def completePayment_def)
next
  case (RemoveSlot sid)
  then show "slot_reference_unique s \<Longrightarrow> ?thesis" by (simp add: slot_reference_unique_def)
qed

lemma handle_all_unique:
  "slot_reference_unique s \<Longrightarrow> slot_reference_unique (handle_all rs s)"
  by (induction rs arbitrary: s) (simp_all add: handle_unique)

lemma unique_count_le_1:
  "distinct (map k xs) \<Longrightarrow> length (filter (\<lambda>x. k x = a) xs) \<le> Suc 0"
proof (induction xs)
  case Nil
  then show ?case by simp
next
  case (Cons x xs)
  show ?case
  proof (cases "k x = a")
    case True
    have "k x \<notin> k ` set xs"
      using Cons.prems by simp
    then have "\<forall>y\<in>set xs. k y \<noteq> a"
      using True by blast
    then have "filter (\<lambda>y. k y = a) xs = []"
      by (simp add: filter_empty_conv)
    then show ?thesis using True by simp
  next
    case False
    then show ?thesis using Cons by simp
  qed
qed

lemma floor_int_half: "\<lfloor>(of_int n :: rat) + 1 / 2\<rfloor> = n"
  by linarith

lemma Math_round_floor:
  "number_value (Math_round (Finite m e))
     = map_option (\<lambda>v. of_int \<lfloor>v + 1 / 2\<rfloor>) (number_value (Finite m e))"
proof (cases "0 \<le> e")
  case True
  have "\<lfloor>(of_int (m * 2 ^ nat e) :: rat) + 1 / 2\<rfloor> = m * 2 ^ nat e"
    by (rule floor_int_half)
  then show ?thesis using True by simp
next
  case False
  define k where "k = nat (- e) - 1"
  have k: "nat (- e) = Suc k" using False by (simp add: k_def)
  have "(of_int m :: rat) / 2 ^ Suc k + 1 / 2 = of_int (m + 2 ^ k) / of_int (2 ^ Suc k)"
    by (simp add: field_simps)
  then have "\<lfloor>(of_int m :: rat) / 2 ^ Suc k + 1 / 2\<rfloor> = (m + 2 ^ k) div 2 ^ Suc k"
    by (simp only: floor_divide_of_int_eq)
  then show ?thesis using False k by simp
qed

lemma round_ties_even_near: "\<bar>round_ties_even p k * 2 ^ k - p\<bar> * 2 \<le> 2 ^ k"
proof -
  define q r where "q = p div 2 ^ k" and "r = p mod 2 ^ k"
  have p: "p = q * 2 ^ k + r" unfolding q_def r_def by (rule div_mult_mod_eq[symmetric])
  have r: "0 \<le> r" "r < 2 ^ k" by (simp_all add: r_def)
  have "round_ties_even p k = q \<and> 2 * r \<le> 2 ^ k \<or> round_ties_even p k = q + 1 \<and> 2 * r \<ge> 2 ^ k"
    by (auto simp: round_ties_even_def Let_def q_def r_def)
  then show ?thesis
  proof
    assume "round_ties_even p k = q \<and> 2 * r \<le> 2 ^ k"
    then show ?thesis using p r by simp
  next
    assume a: "round_ties_even p k = q + 1 \<and> 2 * r \<ge> 2 ^ k"
    then have "round_ties_even p k * 2 ^ k - p = 2 ^ k - r"
      using p by (simp add: algebra_simps)
    then show ?thesis using a r by simp
  qed
qed

lemma le_zero_value:
  "number_value x = Some v \<Longrightarrow> number_le_zero x \<longleftrightarrow> v \<le> 0"
proof (cases x)
  case (Finite m e)
  assume "number_value x = Some v"
  then have v: "v = (if 0 \<le> e then of_int m * 2 ^ nat e else of_int m / 2 ^ nat (- e))"
    using Finite by simp
  have "(of_int m * 2 ^ nat e \<le> (0::rat)) = (m \<le> 0)"
    using mult_le_cancel_right[of "of_int m :: rat" "2 ^ nat e" 0] by simp
  moreover have "\<not> (2::rat) ^ nat (- e) \<le> 0"
    by (simp add: not_le)
  then have "(of_int m / 2 ^ nat (- e) \<le> (0::rat)) = (m \<le> 0)"
    by (simp add: divide_le_0_iff)
  ultimately show ?thesis using Finite v by simp
qed simp_all


lemma payment_create_Inr:
  assumes "payment_create env bid uid a cur oid tid s = Inr (p, s')"
  shows "\<exists>m. a = Finite m 0 \<and> amountInPaise p = m \<and> paymentStatus p = PENDING
           \<and> payment_bookingId p = bid \<and> razorpayOrderId p = Some oid
           \<and> s' = s\<lparr>payment_tbl := payment_tbl s @ [p]\<rparr>"
  using assms
  by (cases a) (auto simp: payment_create_def Let_def split: if_splits)

lemma createPayment_Inr:
  assumes "createPayment env bid uid x tid s = (Inr r, s')"
  shows "\<exists>n p. 0 < n \<and> Math_round (times_100 x) = Finite n 0
           \<and> payment_tbl s' = payment_tbl s @ [p] \<and> amountInPaise p = n
           \<and> paymentStatus p = PENDING
           \<and> map options_amount (razorpay_orders s')
               = map options_amount (razorpay_orders s) @ [Finite n 0]"
  using assms
  by (auto simp: createPayment_def Let_def SendMail_def
           split: if_splits option.splits sum.splits prod.splits
           dest!: payment_create_Inr)

section \<open>Evaluating the examples\<close>

lemmas example_defs =
  example_env_def example_state_def example_body_def example_body_forged_def
  example_body_other_order_def example_payment_def example_booking_def example_slot_def
  example_station_def example_rj_def example_result_def example_state_completed_def
  example_state_failed_def example_state_unbooked_def

lemmas store_defs =
  payment_findUnique_def booking_findUnique_def advertisementSlot_findUnique_def
  radioStation_findUnique_def payment_update_def advertisementSlot_update_def
  apply_PaymentUpdateInput_def

lemmas completePayment_defs =
  completePayment_def completePayment_load_def completePayment_write_def
  completePayment_transaction_def

lemma example_guards:
  "passes_guards ''pay1'' example_body example_state example_payment example_booking"
  by (simp add: passes_guards_def example_defs store_defs)

lemma example_guards_forged:
  "passes_guards ''pay1'' example_body_forged example_state example_payment example_booking"
  by (simp add: passes_guards_def example_defs store_defs)

lemma example_guards_other_order:
  "passes_guards ''pay1'' example_body_other_order example_state example_payment example_booking"
  by (simp add: passes_guards_def example_defs store_defs)

lemma example_load:
  "completePayment_load example_env ''pay1'' example_body example_state
     = SignatureValid ''b1'' ''slot1''"
  by (simp add: completePayment_load_def example_defs store_defs)

lemma example_write:
  "completePayment_write ''pay1'' example_body (SignatureValid ''b1'' ''slot1'') example_state
     = (Inr example_result, example_state_completed)"
  by (simp add: completePayment_defs example_defs store_defs)

lemma example_write_again:
  "completePayment_write ''pay1'' example_body (SignatureValid ''b1'' ''slot1'')
     example_state_completed = (Inr example_result, example_state_completed)"
  by (simp add: completePayment_defs example_defs store_defs)

lemma example_write_failed:
  "completePayment_write ''pay1'' example_body (SignatureValid ''b1'' ''slot1'')
     example_state_failed = (Inr example_result, example_state_completed)"
  by (simp add: completePayment_defs example_defs store_defs)

lemma example_write_forged:
  "completePayment_write ''pay1'' example_body_forged SignatureInvalid example_state
     = (Inl (HttpException ''Invalid payment signature.'' BAD_REQUEST), example_state_failed)"
  by (simp add: completePayment_defs example_defs store_defs)

lemma example_complete:
  "completePayment example_env ''pay1'' example_body example_state
     = (Inr example_result, example_state_completed)"
  by (simp add: completePayment_def example_load example_write)


section \<open>completePayment\<close>

text \<open>
  Claim C1. A second call of \<open>completePayment\<close> with the same arguments, after a first one
  that completed a pending payment, changes nothing and succeeds at once: it returns the
  booking id and slot id the first call returned, under the message of the replay branch.
  After the first call the slot is BOOKED and the payment COMPLETED, and of the two calls
  exactly one ran a commit.
\<close>

theorem completePayment_idempotent:
  assumes "passes_guards pid body s p b" and "paymentStatus p = PENDING"
    and "completePayment env pid body s = (Inr r1, s1)"
  shows "completePayment env pid body s1
           = (Inr \<lparr>message = ''Payment already verified and completed.'',
                   bookingId = bookingId r1, slotId = slotId r1\<rparr>, s1)
         \<and> completePayment_load env pid body s1
           = AlreadyCompleted \<lparr>message = ''Payment already verified and completed.'',
                                bookingId = bookingId r1, slotId = slotId r1\<rparr>
         \<and> map_option availabilityStatus (advertisementSlot_findUnique (slotId r1) s1) = Some BOOKED
         \<and> payment_status pid s1 = Some COMPLETED
         \<and> length (filter (is_commit pid) (fst (run_calls env [(pid, body), (pid, body)] s))) = 1"
proof -
  have g: "pid \<noteq> []" "payment_findUnique pid s = Some p"
    "booking_findUnique (payment_bookingId p) s = Some b" "booking_slotId b \<noteq> []"
    using assms(1) by (simp_all add: passes_guards_def)
  have oid: "razorpayOrderId p = Some (body_razorpayOrderId body)"
    using assms by (auto simp: completePayment_def load_eq split: if_splits)
  have sig: "body_razorpaySignature body =
           createHmac_sha256_hex env (RAZORPAY_KEYSECRET env)
             (body_razorpayOrderId body @ ''|'' @ body_razorpayPaymentId body)"
  proof (rule ccontr)
    assume "\<not> ?thesis"
    then have "completePayment env pid body s
                 = (Inl (HttpException ''Invalid payment signature.'' BAD_REQUEST),
                    s\<lparr>payment_tbl := map (\<lambda>q. if payment_id q = pid then q\<lparr>paymentStatus := FAILED\<rparr> else q)
                                 (payment_tbl s)\<rparr>)"
      using assms(1,2) oid by (intro signature_mismatch_eq) auto
    with assms(3) show False by simp
  qed
  let ?p' = "p\<lparr>paymentStatus := COMPLETED,
               razorpayPaymentId := Some (body_razorpayPaymentId body),
               razorpaySignature := Some (body_razorpaySignature body)\<rparr>"
  from commit_eq[OF assms(1,2) oid sig, of] assms(3)
  have ok: "advertisementSlot_findUnique (booking_slotId b) s \<noteq> None"
    and r1: "r1 = \<lparr>message = ''Payment verified successfully. Slot booked. Awaiting admin approval for booking.'',
                 bookingId = payment_bookingId p, slotId = booking_slotId b\<rparr>"
    and s1: "s1 = s\<lparr>payment_tbl := map (\<lambda>q. if payment_id q = pid
                                    then q\<lparr>paymentStatus := COMPLETED,
                                           razorpayPaymentId := Some (body_razorpayPaymentId body),
                                           razorpaySignature := Some (body_razorpaySignature body)\<rparr>
                                    else q) (payment_tbl s),
              advertisementSlot_tbl := map (\<lambda>x. if slot_id x = booking_slotId b
                                               then x\<lparr>availabilityStatus := BOOKED\<rparr> else x)
                                             (advertisementSlot_tbl s)\<rparr>"
    by (auto split: if_splits)
  have f1: "payment_findUnique pid s1 = Some ?p'"
    using g(2) unfolding s1
    by (simp add: payment_findUnique_def find_map_same[where k=payment_id])
  have b1: "booking_findUnique (payment_bookingId ?p') s1 = Some b"
    using g(3) unfolding s1 by (simp add: booking_findUnique_def)
  have g1: "passes_guards pid body s1 ?p' b"
    using assms(1) f1 b1 by (simp add: passes_guards_def)
  have l1: "completePayment_load env pid body s1
              = AlreadyCompleted \<lparr>message = ''Payment already verified and completed.'',
                   bookingId = bookingId r1, slotId = slotId r1\<rparr>"
    using g1 by (simp add: load_eq r1)
  have second: "completePayment env pid body s1
           = (Inr \<lparr>message = ''Payment already verified and completed.'',
                   bookingId = bookingId r1, slotId = slotId r1\<rparr>, s1)"
    by (simp add: completePayment_def l1)
  have slot: "map_option availabilityStatus (advertisementSlot_findUnique (slotId r1) s1) = Some BOOKED"
    using ok unfolding s1 r1
    by (auto simp: advertisementSlot_findUnique_def find_map_same[where k=slot_id])
  have st: "payment_status pid s1 = Some COMPLETED"
    using f1 by (simp add: payment_status_def)
  have l0: "completePayment_load env pid body s = SignatureValid (payment_bookingId p) (booking_slotId b)"
    using assms(1,2) oid sig by (simp add: load_eq)
  have w0: "completePayment_write pid body (SignatureValid (payment_bookingId p) (booking_slotId b)) s
              = (Inr r1, s1)"
    using assms(3) l0 by (simp add: completePayment_def)
  have cnt: "length (filter (is_commit pid) (fst (run_calls env [(pid, body), (pid, body)] s))) = 1"
    by (simp add: Let_def l0 w0 l1)
  from second l1 slot st cnt show ?thesis by simp
qed

theorem completePayment_idempotent_witness:
  "passes_guards ''pay1'' example_body example_state example_payment example_booking
   \<and> paymentStatus example_payment = PENDING
   \<and> map_option availabilityStatus (advertisementSlot_findUnique ''slot1'' example_state)
       = Some AVAILABLE
   \<and> completePayment example_env ''pay1'' example_body example_state
       = (Inr example_result, example_state_completed)
   \<and> completePayment example_env ''pay1'' example_body example_state_completed
       = (Inr \<lparr>message = ''Payment already verified and completed.'',
               bookingId = ''b1'', slotId = ''slot1''\<rparr>, example_state_completed)
   \<and> map_option availabilityStatus (advertisementSlot_findUnique ''slot1'' example_state_completed)
       = Some BOOKED
   \<and> length (filter (is_commit ''pay1'')
         (fst (run_calls example_env [(''pay1'', example_body), (''pay1'', example_body)]
                 example_state))) = 1"
proof -
  have h2: "paymentStatus example_payment = PENDING"
    by (simp add: example_payment_def)
  have h4: "map_option availabilityStatus (advertisementSlot_findUnique ''slot1'' example_state)
              = Some AVAILABLE"
    by (simp add: example_defs store_defs)
  have r: "bookingId example_result = ''b1''" "slotId example_result = ''slot1''"
    by (simp_all add: example_result_def)
  from completePayment_idempotent[OF example_guards h2 example_complete]
  show ?thesis using example_guards h2 h4 example_complete by (simp add: r)
qed

text \<open>
  Claim C2, as stated, fails: the transaction selects the payment by its id alone. Two
  calls for the same pending payment that both load before either writes both commit:
  the second transaction succeeds although the status it finds is COMPLETED. It succeeds
  as well on a payment that a concurrent call with a bad signature has marked FAILED in
  between.
\<close>

theorem completePayment_commit_unconditional_counterexample:
  "completePayment_load example_env ''pay1'' example_body example_state
     = SignatureValid ''b1'' ''slot1''
   \<and> completePayment_write ''pay1'' example_body (SignatureValid ''b1'' ''slot1'') example_state
     = (Inr example_result, example_state_completed)
   \<and> payment_status ''pay1'' example_state_completed = Some COMPLETED
   \<and> completePayment_write ''pay1'' example_body (SignatureValid ''b1'' ''slot1'')
        example_state_completed
     = (Inr example_result, example_state_completed)
   \<and> completePayment_write ''pay1'' example_body_forged SignatureInvalid example_state
     = (Inl (HttpException ''Invalid payment signature.'' BAD_REQUEST), example_state_failed)
   \<and> payment_status ''pay1'' example_state_failed = Some FAILED
   \<and> completePayment_write ''pay1'' example_body (SignatureValid ''b1'' ''slot1'')
        example_state_failed
     = (Inr example_result, example_state_completed)"
proof -
  have "payment_status ''pay1'' example_state_completed = Some COMPLETED"
    by (simp add: payment_status_def example_defs store_defs)
  moreover have "payment_status ''pay1'' example_state_failed = Some FAILED"
    by (simp add: payment_status_def example_defs store_defs)
  ultimately show ?thesis
    by (simp add: example_load example_write example_write_again example_write_forged
          example_write_failed)
qed

text \<open>
  Claim C2, amended. The status is checked when the payment is loaded, not in the
  transaction. When the calls run one after the other, each writing on the state it
  loaded from, at most one of any sequence of calls commits for a given payment.
\<close>

theorem completePayment_sequential_commit_once:
  "length (filter (is_commit pid) (fst (run_calls env cs s))) \<le> 1"
  by (rule run_calls_commits_le_1)

theorem completePayment_sequential_commit_once_witness:
  "length (filter (is_commit ''pay1'')
     (fst (run_calls example_env
             [(''pay1'', example_body), (''pay1'', example_body_forged), (''pay1'', example_body)]
             example_state))) \<le> 1"
  by (rule completePayment_sequential_commit_once)

text \<open>
  Claim C3, as stated, fails: FAILED is not terminal when calls overlap. A call with the
  right signature loads the pending payment; a call with a wrong signature then marks the
  payment FAILED and fails; the first call's transaction, which selects the payment by
  its id alone, still goes through. The payment is COMPLETED and the slot BOOKED, and a
  later call succeeds instead of failing the state guard.
\<close>

theorem completePayment_failed_not_terminal_counterexample:
  "completePayment_load example_env ''pay1'' example_body example_state
     = SignatureValid ''b1'' ''slot1''
   \<and> completePayment example_env ''pay1'' example_body_forged example_state
     = (Inl (HttpException ''Invalid payment signature.'' BAD_REQUEST), example_state_failed)
   \<and> payment_status ''pay1'' example_state_failed = Some FAILED
   \<and> completePayment_write ''pay1'' example_body (SignatureValid ''b1'' ''slot1'')
        example_state_failed
     = (Inr example_result, example_state_completed)
   \<and> payment_status ''pay1'' example_state_completed = Some COMPLETED
   \<and> map_option availabilityStatus (advertisementSlot_findUnique ''slot1'' example_state_completed)
     = Some BOOKED
   \<and> completePayment example_env ''pay1'' example_body example_state_completed
     = (Inr \<lparr>message = ''Payment already verified and completed.'',
             bookingId = ''b1'', slotId = ''slot1''\<rparr>, example_state_completed)"
proof -
  have "completePayment_load example_env ''pay1'' example_body_forged example_state
          = SignatureInvalid"
    by (simp add: completePayment_load_def example_defs store_defs)
  then have forged: "completePayment example_env ''pay1'' example_body_forged example_state
     = (Inl (HttpException ''Invalid payment signature.'' BAD_REQUEST), example_state_failed)"
    by (simp add: completePayment_def example_write_forged)
  have failed: "payment_status ''pay1'' example_state_failed = Some FAILED"
    by (simp add: payment_status_def example_defs store_defs)
  have completed: "payment_status ''pay1'' example_state_completed = Some COMPLETED"
    by (simp add: payment_status_def example_defs store_defs)
  have booked: "map_option availabilityStatus
                  (advertisementSlot_findUnique ''slot1'' example_state_completed) = Some BOOKED"
    by (simp add: example_defs store_defs)
  have later: "completePayment example_env ''pay1'' example_body example_state_completed
     = (Inr \<lparr>message = ''Payment already verified and completed.'',
             bookingId = ''b1'', slotId = ''slot1''\<rparr>, example_state_completed)"
    by (simp add: completePayment_def completePayment_load_def example_defs store_defs)
  show ?thesis
    by (intro conjI example_load forged failed example_write_failed completed booked later)
qed

text \<open>
  Claim C3, amended. On a pending payment whose order id matches, a signature that differs
  from the recomputed one makes the call fail with "Invalid payment signature." (status
  400) and marks the payment FAILED, touching nothing else. For calls that run one after
  the other, each writing on the state it loaded from, FAILED is terminal: after any such
  later calls \<open>cs\<close> the payment is still FAILED, and any further call on it, whatever it
  supplies, fails and leaves the state as it is, so it neither completes the payment nor
  books the slot; when it supplies all values, the error is that of the state guard.
\<close>

theorem completePayment_invalid_signature_terminal:
  assumes "passes_guards pid body s p b" and "paymentStatus p = PENDING"
    and "razorpayOrderId p = Some (body_razorpayOrderId body)"
    and "createHmac_sha256_hex env (RAZORPAY_KEYSECRET env)
           (body_razorpayOrderId body @ ''|'' @ body_razorpayPaymentId body)
         \<noteq> body_razorpaySignature body"
  shows "fst (completePayment env pid body s)
           = Inl (HttpException ''Invalid payment signature.'' BAD_REQUEST)
         \<and> snd (completePayment env pid body s)
           = s\<lparr>payment_tbl := map (\<lambda>q. if payment_id q = pid then q\<lparr>paymentStatus := FAILED\<rparr> else q)
                                  (payment_tbl s)\<rparr>
         \<and> (\<forall>cs body'.
              let s2 = snd (run_calls env cs (snd (completePayment env pid body s)))
              in payment_status pid s2 = Some FAILED
                 \<and> snd (completePayment env pid body' s2) = s2
                 \<and> isl (fst (completePayment env pid body' s2))
                 \<and> (body_razorpayOrderId body' \<noteq> [] \<and> body_razorpayPaymentId body' \<noteq> []
                      \<and> body_razorpaySignature body' \<noteq> []
                    \<longrightarrow> fst (completePayment env pid body' s2)
                        = Inl (HttpException ''Payment cannot be completed in its current state: FAILED''
                                BAD_REQUEST)))"
proof -
  let ?s1 = "s\<lparr>payment_tbl := map (\<lambda>q. if payment_id q = pid then q\<lparr>paymentStatus := FAILED\<rparr> else q)
                                  (payment_tbl s)\<rparr>"
  have eq: "completePayment env pid body s
              = (Inl (HttpException ''Invalid payment signature.'' BAD_REQUEST), ?s1)"
    using assms by (rule signature_mismatch_eq)
  have g: "pid \<noteq> []" "payment_findUnique pid s = Some p"
    "booking_findUnique (payment_bookingId p) s = Some b" "booking_slotId b \<noteq> []"
    using assms(1) by (simp_all add: passes_guards_def)
  have f1: "payment_findUnique pid ?s1 = Some (p\<lparr>paymentStatus := FAILED\<rparr>)"
    using g(2) by (simp add: payment_findUnique_def find_map_same[where k=payment_id])
  then have st1: "payment_status pid ?s1 = Some FAILED"
    by (simp add: payment_status_def)
  have later: "payment_status pid s2 = Some FAILED
       \<and> snd (completePayment env pid body' s2) = s2
       \<and> isl (fst (completePayment env pid body' s2))
       \<and> (body_razorpayOrderId body' \<noteq> [] \<and> body_razorpayPaymentId body' \<noteq> []
              \<and> body_razorpaySignature body' \<noteq> []
            \<longrightarrow> fst (completePayment env pid body' s2)
                = Inl (HttpException ''Payment cannot be completed in its current state: FAILED''
                        BAD_REQUEST))"
    if s2: "s2 = snd (run_calls env cs ?s1)" for cs body' s2
  proof -
    have st2: "payment_status pid s2 = Some FAILED"
      using run_calls_not_pending[of pid ?s1 env cs] st1 s2 by simp
    then obtain p2 where p2: "payment_findUnique pid s2 = Some p2" "paymentStatus p2 = FAILED"
      by (auto simp: payment_status_def)
    have "map_option payment_bookingId (payment_findUnique pid s2) = Some (payment_bookingId p)"
      using run_calls_payment_bookingId[of pid env cs ?s1] f1 s2 by simp
    then have bid: "payment_bookingId p2 = payment_bookingId p" using p2 by simp
    have bk: "booking_findUnique (payment_bookingId p2) s2 = Some b"
      using g(3) bid s2 by (simp add: booking_findUnique_def)
    have "fst (completePayment env pid body' s2)
            = Inl (HttpException ''Payment cannot be completed in its current state: FAILED''
                    BAD_REQUEST)"
      if "body_razorpayOrderId body' \<noteq> []" "body_razorpayPaymentId body' \<noteq> []"
         "body_razorpaySignature body' \<noteq> []"
    proof -
      have "passes_guards pid body' s2 p2 b"
        using that g(1,4) p2 bk by (simp add: passes_guards_def)
      then show ?thesis using p2(2) by (simp add: completePayment_def load_eq)
    qed
    with st2 FAILED_call[OF st2, of env body'] show ?thesis by simp
  qed
  show ?thesis
    unfolding eq using later by (simp add: Let_def)
qed

theorem completePayment_invalid_signature_terminal_witness:
  "passes_guards ''pay1'' example_body_forged example_state example_payment example_booking
   \<and> paymentStatus example_payment = PENDING
   \<and> razorpayOrderId example_payment = Some (body_razorpayOrderId example_body_forged)
   \<and> createHmac_sha256_hex example_env (RAZORPAY_KEYSECRET example_env)
        (body_razorpayOrderId example_body_forged @ ''|'' @ body_razorpayPaymentId example_body_forged)
      \<noteq> body_razorpaySignature example_body_forged
   \<and> completePayment example_env ''pay1'' example_body_forged example_state
      = (Inl (HttpException ''Invalid payment signature.'' BAD_REQUEST), example_state_failed)
   \<and> completePayment example_env ''pay1'' example_body
        (snd (run_calls example_env [(''pay1'', example_body_forged)] example_state_failed))
      = (Inl (HttpException ''Payment cannot be completed in its current state: FAILED''
               BAD_REQUEST), example_state_failed)"
proof -
  have h2: "paymentStatus example_payment = PENDING"
    by (simp add: example_payment_def)
  have h3: "razorpayOrderId example_payment = Some (body_razorpayOrderId example_body_forged)"
    by (simp add: example_defs)
  have h4: "createHmac_sha256_hex example_env (RAZORPAY_KEYSECRET example_env)
        (body_razorpayOrderId example_body_forged @ ''|'' @ body_razorpayPaymentId example_body_forged)
      \<noteq> body_razorpaySignature example_body_forged"
    by (simp add: example_defs)
  have nonempty: "body_razorpayOrderId example_body \<noteq> [] \<and> body_razorpayPaymentId example_body \<noteq> []
      \<and> body_razorpaySignature example_body \<noteq> []"
    by (simp add: example_body_def)
  note t = completePayment_invalid_signature_terminal[OF example_guards_forged h2 h3 h4, of]
  have s1: "snd (completePayment example_env ''pay1'' example_body_forged example_state)
              = example_state_failed"
    using t by (simp add: example_defs)
  have first: "completePayment example_env ''pay1'' example_body_forged example_state
      = (Inl (HttpException ''Invalid payment signature.'' BAD_REQUEST), example_state_failed)"
    using t s1 by (simp add: prod_eq_iff)
  let ?s2 = "snd (run_calls example_env [(''pay1'', example_body_forged)] example_state_failed)"
  from t have "payment_status ''pay1'' ?s2 = Some FAILED
      \<and> snd (completePayment example_env ''pay1'' example_body ?s2) = ?s2
      \<and> fst (completePayment example_env ''pay1'' example_body ?s2)
         = Inl (HttpException ''Payment cannot be completed in its current state: FAILED'' BAD_REQUEST)"
    unfolding s1 Let_def using nonempty by blast
  moreover have "?s2 = example_state_failed"
    by (simp add: Let_def completePayment_load_def completePayment_write_def example_defs store_defs)
  ultimately have second: "completePayment example_env ''pay1'' example_body ?s2
      = (Inl (HttpException ''Payment cannot be completed in its current state: FAILED''
               BAD_REQUEST), example_state_failed)"
    by (simp add: prod_eq_iff)
  from example_guards_forged h2 h3 h4 first second show ?thesis by simp
qed

text \<open>
  Claim C4. When the guards pass on a pending payment, the order id matches and the
  signature is the recomputed one, the call is all or nothing. Either the transaction
  goes through: then the new state is the old one with exactly the payment record changed
  (status COMPLETED, external payment id and signature set) and the slot record of the
  booking changed (status BOOKED), every other record and table as it was, the bookings
  among them. Or the store refuses it (the slot is missing, or another payment holds the
  external payment id): then the call fails with status 500 and the state is unchanged.
\<close>

theorem completePayment_commit_frame:
  assumes "passes_guards pid body s p b" and "paymentStatus p = PENDING"
    and "razorpayOrderId p = Some (body_razorpayOrderId body)"
    and "body_razorpaySignature body =
           createHmac_sha256_hex env (RAZORPAY_KEYSECRET env)
             (body_razorpayOrderId body @ ''|'' @ body_razorpayPaymentId body)"
  shows "completePayment env pid body s =
     (if advertisementSlot_findUnique (booking_slotId b) s \<noteq> None
         \<and> \<not> list_ex (\<lambda>q. payment_id q \<noteq> pid
                          \<and> razorpayPaymentId q = Some (body_razorpayPaymentId body)) (payment_tbl s)
      then (Inr \<lparr>message = ''Payment verified successfully. Slot booked. Awaiting admin approval for booking.'',
                 bookingId = payment_bookingId p, slotId = booking_slotId b\<rparr>,
            s\<lparr>payment_tbl := map (\<lambda>q. if payment_id q = pid
                                    then q\<lparr>paymentStatus := COMPLETED,
                                           razorpayPaymentId := Some (body_razorpayPaymentId body),
                                           razorpaySignature := Some (body_razorpaySignature body)\<rparr>
                                    else q) (payment_tbl s),
              advertisementSlot_tbl := map (\<lambda>x. if slot_id x = booking_slotId b
                                               then x\<lparr>availabilityStatus := BOOKED\<rparr> else x)
                                             (advertisementSlot_tbl s)\<rparr>)
      else (Inl (HttpException
                  ''Payment verified, but failed to update booking/slot status in database. Please contact support immediately.''
                  INTERNAL_SERVER_ERROR), s))
     \<and> booking_tbl (snd (completePayment env pid body s)) = booking_tbl s
     \<and> booking_findUnique (payment_bookingId p) (snd (completePayment env pid body s)) = Some b"
proof -
  have bt: "booking_tbl (snd (completePayment env pid body s)) = booking_tbl s"
    by (simp add: completePayment_def)
  have "booking_findUnique (payment_bookingId p) s = Some b"
    using assms(1) by (simp add: passes_guards_def)
  then have "booking_findUnique (payment_bookingId p) (snd (completePayment env pid body s)) = Some b"
    using bt by (simp add: booking_findUnique_def)
  with bt commit_eq[OF assms] show ?thesis by simp
qed

theorem completePayment_commit_frame_witness:
  "passes_guards ''pay1'' example_body example_state example_payment example_booking
   \<and> paymentStatus example_payment = PENDING
   \<and> razorpayOrderId example_payment = Some (body_razorpayOrderId example_body)
   \<and> body_razorpaySignature example_body =
        createHmac_sha256_hex example_env (RAZORPAY_KEYSECRET example_env)
          (body_razorpayOrderId example_body @ ''|'' @ body_razorpayPaymentId example_body)
   \<and> completePayment example_env ''pay1'' example_body example_state
       = (Inr example_result, example_state_completed)
   \<and> booking_tbl example_state_completed = [example_booking]
   \<and> bookingStatus example_booking = BookingStatus_PENDING"
proof -
  have h2: "paymentStatus example_payment = PENDING"
    by (simp add: example_payment_def)
  have h3: "razorpayOrderId example_payment = Some (body_razorpayOrderId example_body)"
    by (simp add: example_defs)
  have h4: "body_razorpaySignature example_body =
        createHmac_sha256_hex example_env (RAZORPAY_KEYSECRET example_env)
          (body_razorpayOrderId example_body @ ''|'' @ body_razorpayPaymentId example_body)"
    by (simp add: example_defs)
  have "completePayment example_env ''pay1'' example_body example_state
       = (Inr example_result, example_state_completed)"
    using completePayment_commit_frame[OF example_guards h2 h3 h4]
    by (simp add: example_defs store_defs)
  moreover have "booking_tbl example_state_completed = [example_booking]"
    by (simp add: example_defs)
  moreover have "bookingStatus example_booking = BookingStatus_PENDING"
    by (simp add: example_defs)
  ultimately show ?thesis using example_guards h2 h3 h4 by simp
qed

text \<open>
  Claim C5. For a pending payment whose stored order id is the supplied one, the load
  decides on the signature alone: the call goes on to the transaction exactly when the
  supplied signature equals the keyed hash, under the secret, of the stored order id,
  a bar and the supplied payment id; otherwise it takes the invalid-signature branch.
  The keyed hash itself is the library's and is a parameter here.
\<close>

theorem completePayment_signature_check:
  assumes "passes_guards pid body s p b" and "paymentStatus p = PENDING"
    and "razorpayOrderId p = Some oid" and "oid = body_razorpayOrderId body"
  shows "completePayment_load env pid body s =
           (if body_razorpaySignature body =
                 createHmac_sha256_hex env (RAZORPAY_KEYSECRET env)
                   (oid @ ''|'' @ body_razorpayPaymentId body)
            then SignatureValid (payment_bookingId p) (booking_slotId b)
            else SignatureInvalid)
         \<and> completePayment env pid body s =
           (if body_razorpaySignature body =
                 createHmac_sha256_hex env (RAZORPAY_KEYSECRET env)
                   (oid @ ''|'' @ body_razorpayPaymentId body)
            then (case completePayment_transaction pid body (booking_slotId b) s of
                    Inl e \<Rightarrow>
                      (Inl (HttpException
                         ''Payment verified, but failed to update booking/slot status in database. Please contact support immediately.''
                         INTERNAL_SERVER_ERROR), s)
                  | Inr (updatedPayment, updatedSlot, s') \<Rightarrow>
                      (Inr \<lparr>message = ''Payment verified successfully. Slot booked. Awaiting admin approval for booking.'',
                            bookingId = payment_bookingId p, slotId = slot_id updatedSlot\<rparr>, s'))
            else (Inl (HttpException ''Invalid payment signature.'' BAD_REQUEST),
                  s\<lparr>payment_tbl := map (\<lambda>q. if payment_id q = pid
                                          then q\<lparr>paymentStatus := FAILED\<rparr> else q)
                                        (payment_tbl s)\<rparr>))"
proof -
  have f: "payment_findUnique pid s = Some p"
    using assms(1) by (simp add: passes_guards_def)
  have l: "completePayment_load env pid body s =
           (if body_razorpaySignature body =
                 createHmac_sha256_hex env (RAZORPAY_KEYSECRET env)
                   (oid @ ''|'' @ body_razorpayPaymentId body)
            then SignatureValid (payment_bookingId p) (booking_slotId b)
            else SignatureInvalid)"
    using assms by (auto simp: load_eq)
  show ?thesis
  proof (cases "body_razorpaySignature body =
                 createHmac_sha256_hex env (RAZORPAY_KEYSECRET env)
                   (oid @ ''|'' @ body_razorpayPaymentId body)")
    case True
    then show ?thesis
      unfolding completePayment_def l by (simp add: completePayment_write_def)
  next
    case False
    then show ?thesis
      unfolding completePayment_def l by (simp add: write_SignatureInvalid[OF f])
  qed
qed

theorem completePayment_signature_check_witness:
  "passes_guards ''pay1'' example_body example_state example_payment example_booking
   \<and> passes_guards ''pay1'' example_body_forged example_state example_payment example_booking
   \<and> paymentStatus example_payment = PENDING
   \<and> razorpayOrderId example_payment = Some ''order_A''
   \<and> ''order_A'' = body_razorpayOrderId example_body
   \<and> ''order_A'' = body_razorpayOrderId example_body_forged
   \<and> completePayment_load example_env ''pay1'' example_body example_state
       = SignatureValid ''b1'' ''slot1''
   \<and> completePayment_load example_env ''pay1'' example_body_forged example_state
       = SignatureInvalid"
proof -
  have h2: "paymentStatus example_payment = PENDING"
    by (simp add: example_payment_def)
  have h3: "razorpayOrderId example_payment = Some ''order_A''"
    by (simp add: example_defs)
  have h4: "''order_A'' = body_razorpayOrderId example_body"
    by (simp add: example_defs)
  have h5: "''order_A'' = body_razorpayOrderId example_body_forged"
    by (simp add: example_defs)
  have a: "completePayment_load example_env ''pay1'' example_body example_state
       = SignatureValid ''b1'' ''slot1''"
    using completePayment_signature_check[OF example_guards h2 h3 h4, of example_env]
    by (simp add: example_defs)
  have b: "completePayment_load example_env ''pay1'' example_body_forged example_state
       = SignatureInvalid"
    using completePayment_signature_check[OF example_guards_forged h2 h3 h5, of example_env]
    by (simp add: example_defs)
  from example_guards example_guards_forged h2 h3 h4 h5 a b show ?thesis by simp
qed

text \<open>
  Claim C8, as stated, fails: on a pending payment whose stored order id differs from the
  supplied one, the exception carries status 400 (BAD_REQUEST), not 409 (CONFLICT).
\<close>

theorem completePayment_order_mismatch_counterexample:
  "passes_guards ''pay1'' example_body_other_order example_state example_payment example_booking
   \<and> paymentStatus example_payment = PENDING
   \<and> razorpayOrderId example_payment \<noteq> Some (body_razorpayOrderId example_body_other_order)
   \<and> fst (completePayment example_env ''pay1'' example_body_other_order example_state)
       = Inl (HttpException ''Order ID mismatch.'' BAD_REQUEST)
   \<and> getStatus (HttpException ''Order ID mismatch.'' BAD_REQUEST) \<noteq> CONFLICT"
proof -
  have "fst (completePayment example_env ''pay1'' example_body_other_order example_state)
       = Inl (HttpException ''Order ID mismatch.'' BAD_REQUEST)"
    by (simp add: completePayment_def completePayment_load_def example_defs store_defs)
  moreover have "razorpayOrderId example_payment
                   \<noteq> Some (body_razorpayOrderId example_body_other_order)"
    by (simp add: example_defs)
  moreover have "paymentStatus example_payment = PENDING"
    by (simp add: example_defs)
  ultimately show ?thesis using example_guards_other_order by simp
qed

text \<open>
  Claim C8, amended. On a pending payment whose stored order id differs from the supplied
  one, the call fails with "Order ID mismatch." under status 400 (BAD_REQUEST) and leaves
  the whole state, so the payment, the slot and the booking, unchanged.
\<close>

theorem completePayment_order_mismatch:
  assumes "passes_guards pid body s p b" and "paymentStatus p = PENDING"
    and "razorpayOrderId p \<noteq> Some (body_razorpayOrderId body)"
  shows "completePayment env pid body s = (Inl (HttpException ''Order ID mismatch.'' BAD_REQUEST), s)"
  using assms by (simp add: completePayment_def load_eq)

theorem completePayment_order_mismatch_witness:
  "passes_guards ''pay1'' example_body_other_order example_state example_payment example_booking
   \<and> paymentStatus example_payment = PENDING
   \<and> razorpayOrderId example_payment \<noteq> Some (body_razorpayOrderId example_body_other_order)
   \<and> completePayment example_env ''pay1'' example_body_other_order example_state
       = (Inl (HttpException ''Order ID mismatch.'' BAD_REQUEST), example_state)"
proof -
  have h2: "paymentStatus example_payment = PENDING"
    by (simp add: example_defs)
  have h3: "razorpayOrderId example_payment \<noteq> Some (body_razorpayOrderId example_body_other_order)"
    by (simp add: example_defs)
  from completePayment_order_mismatch[OF example_guards_other_order h2 h3, of example_env]
    example_guards_other_order h2 h3
  show ?thesis by simp
qed

text \<open>
  Claim C10. Once the payment is COMPLETED, a call that supplies all its values succeeds
  whatever they are: the replay branch comes before the comparison of the order id and
  before the signature check, returns the booking id and slot id on record, and leaves
  the state, and so the stored external ids and signature, untouched.
\<close>

theorem completePayment_replay_completed:
  assumes "passes_guards pid body s p b" and "paymentStatus p = COMPLETED"
  shows "completePayment env pid body s =
           (Inr \<lparr>message = ''Payment already verified and completed.'',
                 bookingId = payment_bookingId p, slotId = booking_slotId b\<rparr>, s)"
  using assms by (simp add: completePayment_def load_eq)

theorem completePayment_replay_completed_witness:
  "passes_guards ''pay1'' (example_body_other_order\<lparr>body_razorpaySignature := ''forged''\<rparr>)
     example_state_completed
     (example_payment\<lparr>paymentStatus := COMPLETED, razorpayPaymentId := Some ''pay_X'',
                       razorpaySignature := Some ''secret#order_A|pay_X''\<rparr>)
     example_booking
   \<and> completePayment example_env ''pay1''
        (example_body_other_order\<lparr>body_razorpaySignature := ''forged''\<rparr>) example_state_completed
       = (Inr \<lparr>message = ''Payment already verified and completed.'',
               bookingId = ''b1'', slotId = ''slot1''\<rparr>, example_state_completed)"
proof -
  let ?p = "example_payment\<lparr>paymentStatus := COMPLETED, razorpayPaymentId := Some ''pay_X'',
                       razorpaySignature := Some ''secret#order_A|pay_X''\<rparr>"
  have h1: "passes_guards ''pay1'' (example_body_other_order\<lparr>body_razorpaySignature := ''forged''\<rparr>)
     example_state_completed ?p example_booking"
    by (simp add: passes_guards_def example_defs store_defs)
  have h2: "paymentStatus ?p = COMPLETED"
    by simp
  from completePayment_replay_completed[OF h1 h2, of example_env] h1
  show ?thesis by (simp add: example_defs)
qed

section \<open>Slots and bookings\<close>

text \<open>
  Claim C9. \<open>remove\<close> first looks the slot up and fails with status 404 when there is
  none; it then counts the bookings that reference the slot and, when there is one or
  more, fails with status 409 and removes nothing. With no booking it deletes the slot.
  Whenever \<open>remove\<close> changes the state or succeeds, the slot existed, no booking
  referenced it, and it is gone afterwards.
\<close>

theorem remove_slot_guard:
  "(advertisementSlot_findUnique sid s = None \<longrightarrow>
       remove sid s = (Inl (HttpException (''Advertisement Slot with ID \"'' @ sid @ ''\" not found.'')
                             NOT_FOUND), s))
   \<and> (advertisementSlot_findUnique sid s \<noteq> None \<and> 0 < booking_count_slotId sid s \<longrightarrow>
       remove sid s =
         (Inl (HttpException
                 (''Cannot delete this slot. It has '' @ nat_toString (booking_count_slotId sid s)
                  @ '' associated booking(s). Please cancel or reassign the bookings first.'')
                 CONFLICT), s))
   \<and> (\<forall>slot. advertisementSlot_findUnique sid s = Some slot \<and> booking_count_slotId sid s = 0 \<longrightarrow>
       remove sid s =
         (Inr \<lparr>remove_message = ''Slot '' @ sid @ '' deleted successfully.'', deletedSlot = slot\<rparr>,
          s\<lparr>advertisementSlot_tbl := filter (\<lambda>x. slot_id x \<noteq> sid) (advertisementSlot_tbl s)\<rparr>))
   \<and> (snd (remove sid s) \<noteq> s \<or> \<not> isl (fst (remove sid s)) \<longrightarrow>
       advertisementSlot_findUnique sid s \<noteq> None \<and> booking_count_slotId sid s = 0
       \<and> advertisementSlot_findUnique sid (snd (remove sid s)) = None)"
  by (auto simp: remove_def advertisementSlot_delete_def NotFoundException_def
        ConflictException_def InternalServerErrorException_def Let_def P2025_def
        advertisementSlot_findUnique_def find_filter_none[where k=slot_id]
        split: option.splits sum.splits PrismaError.splits if_splits)

theorem remove_slot_guard_witness:
  "advertisementSlot_findUnique ''slot1'' example_state \<noteq> None
   \<and> 0 < booking_count_slotId ''slot1'' example_state
   \<and> remove ''slot1'' example_state
       = (Inl (HttpException
                 ''Cannot delete this slot. It has 1 associated booking(s). Please cancel or reassign the bookings first.''
                 CONFLICT), example_state)
   \<and> advertisementSlot_findUnique ''slot1'' example_state_unbooked = Some example_slot
   \<and> booking_count_slotId ''slot1'' example_state_unbooked = 0
   \<and> remove ''slot1'' example_state_unbooked
       = (Inr \<lparr>remove_message = ''Slot slot1 deleted successfully.'', deletedSlot = example_slot\<rparr>,
          example_state_unbooked\<lparr>advertisementSlot_tbl := []\<rparr>)
   \<and> advertisementSlot_findUnique ''slot9'' example_state = None
   \<and> remove ''slot9'' example_state
       = (Inl (HttpException ''Advertisement Slot with ID \"slot9\" not found.'' NOT_FOUND),
          example_state)"
proof -
  have a1: "advertisementSlot_findUnique ''slot1'' example_state \<noteq> None"
    by (simp add: example_defs store_defs)
  have a2: "0 < booking_count_slotId ''slot1'' example_state"
    by (simp add: booking_count_slotId_def example_defs)
  have n1: "booking_count_slotId ''slot1'' example_state = 1"
    by (simp add: booking_count_slotId_def example_defs)
  have str: "nat_toString (Suc 0) = ''1''"
    by (subst nat_toString.simps) simp
  have a3: "remove ''slot1'' example_state
       = (Inl (HttpException
                 ''Cannot delete this slot. It has 1 associated booking(s). Please cancel or reassign the bookings first.''
                 CONFLICT), example_state)"
  proof -
    from remove_slot_guard[of "''slot1''" example_state] a1 a2
    have "remove ''slot1'' example_state =
         (Inl (HttpException
                 (''Cannot delete this slot. It has ''
                  @ nat_toString (booking_count_slotId ''slot1'' example_state)
                  @ '' associated booking(s). Please cancel or reassign the bookings first.'')
                 CONFLICT), example_state)"
      by blast
    then show ?thesis
      unfolding n1 One_nat_def str by simp
  qed
  have b1: "advertisementSlot_findUnique ''slot1'' example_state_unbooked = Some example_slot"
    by (simp add: example_defs store_defs)
  have b2: "booking_count_slotId ''slot1'' example_state_unbooked = 0"
    by (simp add: booking_count_slotId_def example_defs)
  have b3: "remove ''slot1'' example_state_unbooked
       = (Inr \<lparr>remove_message = ''Slot slot1 deleted successfully.'', deletedSlot = example_slot\<rparr>,
          example_state_unbooked\<lparr>advertisementSlot_tbl := []\<rparr>)"
  proof -
    from remove_slot_guard[of "''slot1''" example_state_unbooked] b1 b2
    have "remove ''slot1'' example_state_unbooked
       = (Inr \<lparr>remove_message = ''Slot '' @ ''slot1'' @ '' deleted successfully.'',
               deletedSlot = example_slot\<rparr>,
          example_state_unbooked\<lparr>advertisementSlot_tbl :=
            filter (\<lambda>x. slot_id x \<noteq> ''slot1'') (advertisementSlot_tbl example_state_unbooked)\<rparr>)"
      by blast
    moreover have "filter (\<lambda>x. slot_id x \<noteq> ''slot1'') (advertisementSlot_tbl example_state_unbooked) = []"
      by (simp add: example_defs)
    ultimately show ?thesis by simp
  qed
  have c1: "advertisementSlot_findUnique ''slot9'' example_state = None"
    by (simp add: example_defs store_defs)
  have c2: "remove ''slot9'' example_state
       = (Inl (HttpException ''Advertisement Slot with ID \"slot9\" not found.'' NOT_FOUND),
          example_state)"
  proof -
    from remove_slot_guard[of "''slot9''" example_state] c1
    have "remove ''slot9'' example_state
       = (Inl (HttpException (''Advertisement Slot with ID \"'' @ ''slot9'' @ ''\" not found.'')
                 NOT_FOUND), example_state)"
      by blast
    then show ?thesis by simp
  qed
  show ?thesis
    by (intro conjI a1 a2 a3 b1 b2 b3 c1 c2)
qed

text \<open>
  Claim C6. The store refuses a booking whose slot is already referenced, so in every
  state reached by any requests from a state where no slot is referenced twice, every
  slot is referenced by at most one booking. Of two \<open>createBooking\<close> calls for a slot that
  exists and is not referenced yet, whichever the store takes first succeeds, and the
  other fails with Conflict and adds nothing. The refusal is the insert's own: an insert
  for a referenced slot fails with the unique constraint error P2002.
\<close>

theorem booking_slot_unique:
  "(slot_reference_unique s \<longrightarrow>
      slot_reference_unique (handle_all rs s) \<and> booking_count_slotId sid (handle_all rs s) \<le> 1)
   \<and> (advertisementSlot_findUnique sid s \<noteq> None \<and> radioStation_findUnique st1 s \<noteq> None
        \<and> radioStation_findUnique st2 s \<noteq> None
        \<and> find (\<lambda>r. rj_id r = r1) (rj_tbl s) \<noteq> None \<and> find (\<lambda>r. rj_id r = r2) (rj_tbl s) \<noteq> None
        \<and> booking_count_slotId sid s = 0 \<longrightarrow>
      (\<exists>b s1. createBooking i1 n1 u1 st1 r1 sid s = (Inr b, s1)
         \<and> booking_slotId b = sid
         \<and> createBooking i2 n2 u2 st2 r2 sid s1 = (Inl Conflict, s1)
         \<and> booking_count_slotId sid s1 = 1))
   \<and> (0 < booking_count_slotId sid s \<and> booking_slotId b' = sid \<longrightarrow>
        booking_create b' s = Inl (P2002 ''slotId''))"
proof (intro conjI impI)
  assume "slot_reference_unique s"
  then show u: "slot_reference_unique (handle_all rs s)" by (rule handle_all_unique)
  then show "booking_count_slotId sid (handle_all rs s) \<le> 1"
    by (simp add: slot_reference_unique_def booking_count_slotId_def unique_count_le_1)
next
  assume a: "advertisementSlot_findUnique sid s \<noteq> None \<and> radioStation_findUnique st1 s \<noteq> None
        \<and> radioStation_findUnique st2 s \<noteq> None
        \<and> find (\<lambda>r. rj_id r = r1) (rj_tbl s) \<noteq> None \<and> find (\<lambda>r. rj_id r = r2) (rj_tbl s) \<noteq> None
        \<and> booking_count_slotId sid s = 0"
  then have none: "\<not> list_ex (\<lambda>x. booking_slotId x = sid) (booking_tbl s)"
    by (auto simp: booking_count_slotId_def list_ex_iff filter_empty_conv)
  let ?b = "\<lparr>booking_id = i1, booking_userId = u1, booking_stationId = st1, booking_rjId = r1,
             booking_slotId = sid, bookingStatus = BookingStatus_PENDING, bookingDate = n1\<rparr>"
  let ?s1 = "s\<lparr>booking_tbl := booking_tbl s @ [?b]\<rparr>"
  have 1: "createBooking i1 n1 u1 st1 r1 sid s = (Inr ?b, ?s1)"
    using a none by (simp add: createBooking_def booking_create_def)
  have 2: "createBooking i2 n2 u2 st2 r2 sid ?s1 = (Inl Conflict, ?s1)"
    using a by (simp add: createBooking_def booking_create_def advertisementSlot_findUnique_def
        radioStation_findUnique_def)
  have 3: "booking_count_slotId sid ?s1 = 1"
    using a by (simp add: booking_count_slotId_def)
  from 1 2 3 show "\<exists>b s1. createBooking i1 n1 u1 st1 r1 sid s = (Inr b, s1)
         \<and> booking_slotId b = sid
         \<and> createBooking i2 n2 u2 st2 r2 sid s1 = (Inl Conflict, s1)
         \<and> booking_count_slotId sid s1 = 1"
    by (intro exI[of _ ?b] exI[of _ ?s1]) simp
next
  assume "0 < booking_count_slotId sid s \<and> booking_slotId b' = sid"
  then show "booking_create b' s = Inl (P2002 ''slotId'')"
    by (auto simp: booking_count_slotId_def booking_create_def list_ex_iff filter_empty_conv)
qed

theorem booking_slot_unique_witness:
  "slot_reference_unique example_state_unbooked
   \<and> booking_count_slotId ''slot1''
        (handle_all [(example_env, CreateBooking ''b1'' ''2025-01-01T00:00:00.000Z'' ''u1'' ''st1'' ''rj1'' ''slot1''),
                     (example_env, CreateBooking ''b2'' ''2025-01-02T00:00:00.000Z'' ''u2'' ''st1'' ''rj1'' ''slot1'')]
           example_state_unbooked) \<le> 1
   \<and> booking_count_slotId ''slot1'' example_state_unbooked = 0
   \<and> createBooking ''b1'' ''2025-01-01T00:00:00.000Z'' ''u1'' ''st1'' ''rj1'' ''slot1''
        example_state_unbooked
       = (Inr example_booking, example_state\<lparr>payment_tbl := []\<rparr>)
   \<and> createBooking ''b2'' ''2025-01-02T00:00:00.000Z'' ''u2'' ''st1'' ''rj1'' ''slot1''
        (example_state\<lparr>payment_tbl := []\<rparr>)
       = (Inl Conflict, example_state\<lparr>payment_tbl := []\<rparr>)
   \<and> booking_create (example_booking\<lparr>booking_id := ''b2''\<rparr>) example_state
       = Inl (P2002 ''slotId'')"
proof -
  let ?rs = "[(example_env, CreateBooking ''b1'' ''2025-01-01T00:00:00.000Z'' ''u1'' ''st1'' ''rj1'' ''slot1''),
              (example_env, CreateBooking ''b2'' ''2025-01-02T00:00:00.000Z'' ''u2'' ''st1'' ''rj1'' ''slot1'')]"
  note t = booking_slot_unique[of example_state_unbooked ?rs "''slot1''" "''st1''" "''st1''"
      "''rj1''" "''rj1''" "''b1''" "''2025-01-01T00:00:00.000Z''" "''u1''"
      "''b2''" "''2025-01-02T00:00:00.000Z''" "''u2''"]
  have u: "slot_reference_unique example_state_unbooked"
    by (simp add: slot_reference_unique_def example_defs)
  have c0: "booking_count_slotId ''slot1'' example_state_unbooked = 0"
    by (simp add: booking_count_slotId_def example_defs)
  have pre: "advertisementSlot_findUnique ''slot1'' example_state_unbooked \<noteq> None
     \<and> radioStation_findUnique ''st1'' example_state_unbooked \<noteq> None
     \<and> find (\<lambda>r. rj_id r = ''rj1'') (rj_tbl example_state_unbooked) \<noteq> None"
    by (simp add: example_defs store_defs)
  have le: "booking_count_slotId ''slot1'' (handle_all ?rs example_state_unbooked) \<le> 1"
    using t u by blast
  have first: "createBooking ''b1'' ''2025-01-01T00:00:00.000Z'' ''u1'' ''st1'' ''rj1'' ''slot1''
        example_state_unbooked
       = (Inr example_booking, example_state\<lparr>payment_tbl := []\<rparr>)"
    by (simp add: createBooking_def booking_create_def example_defs store_defs)
  from t pre c0 obtain b s1 where
    "createBooking ''b1'' ''2025-01-01T00:00:00.000Z'' ''u1'' ''st1'' ''rj1'' ''slot1''
        example_state_unbooked = (Inr b, s1)"
    "createBooking ''b2'' ''2025-01-02T00:00:00.000Z'' ''u2'' ''st1'' ''rj1'' ''slot1'' s1
       = (Inl Conflict, s1)"
    by blast
  with first have second: "createBooking ''b2'' ''2025-01-02T00:00:00.000Z'' ''u2'' ''st1'' ''rj1'' ''slot1''
        (example_state\<lparr>payment_tbl := []\<rparr>)
       = (Inl Conflict, example_state\<lparr>payment_tbl := []\<rparr>)"
    by simp
  have c1: "0 < booking_count_slotId ''slot1'' example_state
            \<and> booking_slotId (example_booking\<lparr>booking_id := ''b2''\<rparr>) = ''slot1''"
    by (simp add: booking_count_slotId_def example_defs)
  have third: "booking_create (example_booking\<lparr>booking_id := ''b2''\<rparr>) example_state
       = Inl (P2002 ''slotId'')"
    using booking_slot_unique[of example_state "[]" "''slot1''" _ _ _ _ _ _ _ _ _ _
        "example_booking\<lparr>booking_id := ''b2''\<rparr>"] c1
    by blast
  show ?thesis
    by (intro conjI u le c0 first second third)
qed

section \<open>Lemmas about the product of doubles\<close>

lemma bit_length_bounds:
  "0 < a \<Longrightarrow> 2 ^ (bit_length a - 1) \<le> a \<and> a < 2 ^ bit_length a"
proof (induction a rule: bit_length.induct)
  case (1 n)
  show ?case
  proof (cases "n div 2 = 0")
    case True
    with "1.prems" have "n = 1" by (auto simp: div_eq_0_iff)
    then show ?thesis by (simp add: bit_length.simps)
  next
    case False
    then have pos: "0 < n div 2" by simp
    from "1.IH"[OF _ pos] "1.prems"
    have ih: "2 ^ (bit_length (n div 2) - 1) \<le> n div 2" "n div 2 < 2 ^ bit_length (n div 2)"
      by auto
    have bl: "bit_length n = Suc (bit_length (n div 2))"
      using "1.prems" by (subst bit_length.simps) simp
    have bp: "0 < bit_length (n div 2)"
      using pos by (subst bit_length.simps) simp
    then obtain j where j: "bit_length (n div 2) = Suc j" by (cases "bit_length (n div 2)") auto
    show ?thesis
      using ih unfolding bl j by (simp) linarith
  qed
qed

lemma bit_length_pos: "0 < a \<Longrightarrow> 0 < bit_length a"
  by (subst bit_length.simps) simp

lemma bit_length_zero [simp]: "bit_length 0 = 0"
  by (subst bit_length.simps) simp

lemma round_ties_even_tie:
  assumes "\<bar>round_ties_even p k * 2 ^ k - p\<bar> * 2 = 2 ^ k"
  shows "even (round_ties_even p k)"
proof -
  define q r where "q = p div 2 ^ k" and "r = p mod 2 ^ k"
  have p: "p = q * 2 ^ k + r" unfolding q_def r_def by (rule div_mult_mod_eq[symmetric])
  have r: "0 \<le> r" "r < 2 ^ k" by (simp_all add: r_def)
  consider (lo) "2 * r < 2 ^ k" | (hi) "2 * r > 2 ^ k" | (tie) "2 * r = 2 ^ k"
    by linarith
  then show ?thesis
  proof cases
    case lo
    then have m: "round_ties_even p k = q"
      by (simp add: round_ties_even_def Let_def q_def r_def)
    have "round_ties_even p k * 2 ^ k - p = - r" unfolding m using p by simp
    with assms r lo show ?thesis by simp
  next
    case hi
    then have m: "round_ties_even p k = q + 1"
      by (simp add: round_ties_even_def Let_def q_def r_def)
    have "round_ties_even p k * 2 ^ k - p = 2 ^ k - r"
      unfolding m using p by (simp add: algebra_simps)
    with assms r hi show ?thesis by simp
  next
    case tie
    then show ?thesis
      by (simp add: round_ties_even_def Let_def q_def r_def)
  qed
qed

lemma round_ties_even_nearest:
  "\<bar>round_ties_even p k * 2 ^ k - p\<bar> \<le> \<bar>j * 2 ^ k - p\<bar>"
proof (cases "j = round_ties_even p k")
  case True
  then show ?thesis by simp
next
  case False
  define c :: int where "c = 2 ^ k"
  define m' where "m' = round_ties_even p k"
  have c: "0 < c" by (simp add: c_def)
  have near: "\<bar>m' * c - p\<bar> * 2 \<le> c"
    unfolding m'_def c_def by (rule round_ties_even_near)
  have "1 \<le> \<bar>j - m'\<bar>" using False by (simp add: m'_def)
  then have "c \<le> \<bar>j - m'\<bar> * c"
    using c by (simp add: mult_le_cancel_right1)
  also have "\<bar>j - m'\<bar> * c = \<bar>j * c - m' * c\<bar>"
    using c by (simp add: abs_mult left_diff_distrib[symmetric])
  finally have far: "c \<le> \<bar>j * c - m' * c\<bar>" .
  have "\<bar>x - p\<bar> * 2 \<le> c \<Longrightarrow> c \<le> \<bar>y - x\<bar> \<Longrightarrow> \<bar>x - p\<bar> \<le> \<bar>y - p\<bar>" for x y :: int
    by arith
  from this[OF near far] have "\<bar>m' * c - p\<bar> \<le> \<bar>j * c - p\<bar>" .
  then show ?thesis by (simp add: m'_def c_def)
qed

lemma round_ties_even_range:
  assumes "2 ^ (52 + k) \<le> \<bar>p\<bar>" and "\<bar>p\<bar> < 2 ^ (53 + k)"
  shows "2 ^ 52 \<le> \<bar>round_ties_even p k\<bar> \<and> \<bar>round_ties_even p k\<bar> \<le> 2 ^ 53
         \<and> (0 < p \<longleftrightarrow> 0 < round_ties_even p k)"
proof -
  define c :: int where "c = 2 ^ k"
  define m' where "m' = round_ties_even p k"
  have c: "0 < c" by (simp add: c_def)
  have near: "\<bar>m' * c - p\<bar> * 2 \<le> c"
    unfolding m'_def c_def by (rule round_ties_even_near)
  have lo: "2 ^ 52 * c \<le> \<bar>p\<bar>" using assms(1) by (simp add: c_def power_add)
  have hi: "\<bar>p\<bar> < 2 ^ 53 * c" using assms(2) by (simp add: c_def power_add)
  have mono: "x \<le> y \<Longrightarrow> x * c \<le> y * c" for x y :: int
    using c by (simp add: mult_right_mono)
  have pos: "P \<le> p \<Longrightarrow> \<bar>x - p\<bar> * 2 \<le> c \<Longrightarrow> x \<le> P - c \<Longrightarrow> False" for x P :: int
    using c by arith
  have pos': "p \<le> P \<Longrightarrow> \<bar>x - p\<bar> * 2 \<le> c \<Longrightarrow> P + c \<le> x \<Longrightarrow> False" for x P :: int
    using c by arith
  show ?thesis
  proof (cases "0 < p")
    case True
    have a: "2 ^ 52 \<le> m'"
    proof (rule ccontr)
      assume "\<not> 2 ^ 52 \<le> m'"
      then have "m' \<le> 2 ^ 52 - 1" by simp
      from mono[OF this] have "m' * c \<le> 2 ^ 52 * c - c" by (simp add: algebra_simps)
      moreover have "2 ^ 52 * c \<le> p" using lo True by simp
      ultimately show False using pos[of "2 ^ 52 * c" "m' * c"] near by blast
    qed
    have b: "m' \<le> 2 ^ 53"
    proof (rule ccontr)
      assume "\<not> m' \<le> 2 ^ 53"
      then have "2 ^ 53 + 1 \<le> m'" by simp
      from mono[OF this] have "2 ^ 53 * c + c \<le> m' * c" by (simp add: algebra_simps)
      moreover have "p \<le> 2 ^ 53 * c" using hi True by simp
      ultimately show False using pos'[of "2 ^ 53 * c" "m' * c"] near by blast
    qed
    from a b True show ?thesis by (simp add: m'_def)
  next
    case False
    with lo c have neg: "p < 0" by (cases "p = 0") auto
    have a: "m' \<le> - (2 ^ 52)"
    proof (rule ccontr)
      assume "\<not> m' \<le> - (2 ^ 52)"
      then have "- (2 ^ 52) + 1 \<le> m'" by simp
      from mono[OF this] have "- (2 ^ 52 * c) + c \<le> m' * c" by (simp add: algebra_simps)
      moreover have "p \<le> - (2 ^ 52 * c)" using lo neg by simp
      ultimately show False using pos'[of "- (2 ^ 52 * c)" "m' * c"] near by blast
    qed
    have b: "- (2 ^ 53) \<le> m'"
    proof (rule ccontr)
      assume "\<not> - (2 ^ 53) \<le> m'"
      then have "m' \<le> - (2 ^ 53) - 1" by simp
      from mono[OF this] have "m' * c \<le> - (2 ^ 53 * c) - c" by (simp add: algebra_simps)
      moreover have "- (2 ^ 53 * c) \<le> p" using hi neg by simp
      ultimately show False using pos[of "- (2 ^ 53 * c)" "m' * c"] near by blast
    qed
    from a b neg show ?thesis by (simp add: m'_def)
  qed
qed

lemma number_value_powi: "number_value (Finite m e) = Some (of_int m * 2 powi e)"
  by (cases "0 \<le> e") (simp_all add: power_int_def field_simps)

lemma powi_add_nat: "(2::rat) powi (e + int k) = 2 ^ k * 2 powi e"
  by (simp add: power_int_add)

lemma powi_mono: "a \<le> b \<Longrightarrow> (2::rat) powi a \<le> 2 powi b"
  by (rule power_int_increasing) simp_all

lemma powi_pos [simp]: "(0::rat) < 2 powi e"
  by simp

lemma round_to_53_bits_exact:
  assumes "bit_length (nat \<bar>p\<bar>) \<le> 53"
  shows "round_to_53_bits p e = (p, e)"
  using assms by (simp add: round_to_53_bits_def Let_def)

lemma round_to_53_bits_rounded:
  assumes "53 < bit_length (nat \<bar>p\<bar>)"
  shows "\<exists>k. 0 < k \<and> bit_length (nat \<bar>p\<bar>) = 53 + k
           \<and> round_to_53_bits p e = (round_ties_even p k, e + int k)
           \<and> 2 ^ (52 + k) \<le> \<bar>p\<bar> \<and> \<bar>p\<bar> < 2 ^ (53 + k)"
proof -
  define n where "n = bit_length (nat \<bar>p\<bar>)"
  define k where "k = n - 53"
  have k: "0 < k" "n = 53 + k" using assms by (simp_all add: n_def k_def)
  have pos: "0 < nat \<bar>p\<bar>"
    using assms by (cases "p = 0") auto
  from bit_length_bounds[OF pos]
  have "2 ^ (n - 1) \<le> nat \<bar>p\<bar>" "nat \<bar>p\<bar> < 2 ^ n" by (simp_all add: n_def)
  then have "int (2 ^ (n - 1)) \<le> \<bar>p\<bar>" "\<bar>p\<bar> < int (2 ^ n)" by linarith+
  then have b: "2 ^ (52 + k) \<le> \<bar>p\<bar>" "\<bar>p\<bar> < 2 ^ (53 + k)"
    using k by simp_all
  have "round_to_53_bits p e = (round_ties_even p k, e + int k)"
    using assms by (simp add: round_to_53_bits_def Let_def n_def k_def)
  with k b show ?thesis unfolding n_def by blast
qed

lemma scale_abs: "0 < u \<Longrightarrow> \<bar>of_int x * u - of_int y * u\<bar> = of_int \<bar>x - y\<bar> * (u::rat)"
  by (simp add: left_diff_distrib[symmetric] abs_mult)

lemma scale_le: "0 < u \<Longrightarrow> x \<le> y \<Longrightarrow> of_int x * u \<le> of_int y * (u::rat)"
  by (simp add: mult_right_mono)

lemma rounded_rep:
  "of_int m' * (2::rat) powi (e + int k) = of_int (m' * 2 ^ k) * 2 powi e"
  by (simp add: powi_add_nat)

text \<open>The rounded product is within half a unit of its last place of the exact one.\<close>

lemma round_to_53_bits_near:
  assumes "round_to_53_bits p e = (m', e')"
  shows "\<bar>of_int m' * 2 powi e' - of_int p * 2 powi e\<bar> * 2 \<le> (2::rat) powi e'"
proof (cases "bit_length (nat \<bar>p\<bar>) \<le> 53")
  case True
  with assms show ?thesis by (simp add: round_to_53_bits_exact)
next
  case False
  then obtain k where k: "round_to_53_bits p e = (round_ties_even p k, e + int k)"
    using round_to_53_bits_rounded[of p e] by auto
  with assms have m': "m' = round_ties_even p k" and e': "e' = e + int k" by simp_all
  have d: "\<bar>of_int m' * 2 powi e' - of_int p * (2::rat) powi e\<bar>
             = of_int \<bar>m' * 2 ^ k - p\<bar> * 2 powi e"
    unfolding e' rounded_rep by (rule scale_abs) simp
  have A: "of_int (\<bar>m' * 2 ^ k - p\<bar> * 2) * 2 powi e \<le> (of_int (2 ^ k) :: rat) * 2 powi e"
    unfolding m' using round_ties_even_near[of p k] by (intro scale_le) simp_all
  have B: "(of_int (2 ^ k) :: rat) * 2 powi e = 2 powi e'"
    by (simp add: e' powi_add_nat)
  have C: "\<bar>of_int m' * 2 powi e' - of_int p * (2::rat) powi e\<bar> * 2
             = of_int (\<bar>m' * 2 ^ k - p\<bar> * 2) * 2 powi e"
    unfolding d by simp
  from A show ?thesis unfolding C B .
qed

text \<open>No double is nearer to the exact product than the rounded one.\<close>

lemma round_to_53_bits_nearest:
  assumes r: "round_to_53_bits p e = (m', e')" and d: "double_value d"
  shows "\<bar>of_int m' * 2 powi e' - of_int p * 2 powi e\<bar> \<le> \<bar>d - of_int p * 2 powi e\<bar>"
proof (cases "bit_length (nat \<bar>p\<bar>) \<le> 53")
  case True
  with r show ?thesis by (simp add: round_to_53_bits_exact)
next
  case False
  then obtain k where k: "round_to_53_bits p e = (round_ties_even p k, e + int k)"
    and lo: "2 ^ (52 + k) \<le> \<bar>p\<bar>"
    using round_to_53_bits_rounded[of p e] by auto
  with r have m': "m' = round_ties_even p k" and e': "e' = e + int k" by simp_all
  define u :: rat where "u = 2 powi e"
  have u: "0 < u" by (simp add: u_def)
  have R: "of_int m' * 2 powi e' = of_int (m' * 2 ^ k) * u"
    unfolding e' u_def by (rule rounded_rep)
  have RW: "\<bar>of_int m' * 2 powi e' - of_int p * u\<bar> = of_int \<bar>m' * 2 ^ k - p\<bar> * u"
    unfolding R by (rule scale_abs[OF u])
  from d obtain m2 e2 where m2: "\<bar>m2\<bar> < 2 ^ 53" and dv: "d = of_int m2 * 2 powi e2"
    by (auto simp: double_value_def)
  show ?thesis
  proof (cases "e' \<le> e2")
    case True
    define j where "j = m2 * 2 ^ nat (e2 - e')"
    have "e2 = e + int (k + nat (e2 - e'))" using True e' by simp
    then have "(2::rat) powi e2 = 2 ^ (k + nat (e2 - e')) * u"
      unfolding u_def using powi_add_nat[of e "k + nat (e2 - e')"] by simp
    then have "d = of_int (j * 2 ^ k) * u"
      by (simp add: dv j_def power_add)
    then have "\<bar>d - of_int p * u\<bar> = of_int \<bar>j * 2 ^ k - p\<bar> * u"
      using scale_abs[OF u, of "j * 2 ^ k" p] by simp
    moreover have "of_int \<bar>m' * 2 ^ k - p\<bar> * u \<le> of_int \<bar>j * 2 ^ k - p\<bar> * u"
      unfolding m' by (intro scale_le u round_ties_even_nearest)
    ultimately show ?thesis using RW by (simp add: u_def)
  next
    case False
    define B :: rat where "B = of_int (2 ^ (52 + k)) * u"
    have Be: "B = 2 ^ 52 * 2 powi e'"
      by (simp add: B_def e' u_def powi_add_nat power_add)
    have "e2 \<le> e' - 1" using False by simp
    then have "(2::rat) powi e2 \<le> 2 powi (e' - 1)" by (rule powi_mono)
    also have "(2::rat) powi (e' - 1) = 2 powi e' / 2"
      by (simp add: power_int_diff)
    finally have pe2: "(2::rat) powi e2 \<le> 2 powi e' / 2" .
    have "\<bar>d\<bar> = of_int \<bar>m2\<bar> * 2 powi e2"
      by (simp add: dv abs_mult)
    also have "\<dots> < 2 ^ 53 * 2 powi e2"
    proof -
      have "(of_int \<bar>m2\<bar> :: rat) < of_int (2 ^ 53)"
        using m2 by (simp only: of_int_less_iff)
      then show ?thesis by (simp add: mult_strict_right_mono)
    qed
    also have "\<dots> \<le> 2 ^ 53 * (2 powi e' / 2)"
      using pe2 by (simp add: mult_left_mono)
    also have "\<dots> = B" by (simp add: Be)
    finally have dB: "\<bar>d\<bar> < B" .
    have W: "\<bar>of_int p * u\<bar> = of_int \<bar>p\<bar> * u"
      using u by (simp add: abs_mult)
    define j :: int where "j = (if 0 < p then 2 ^ 52 else - (2 ^ 52))"
    have jp: "\<bar>j * 2 ^ k - p\<bar> = \<bar>p\<bar> - 2 ^ (52 + k)"
      using lo by (auto simp: j_def power_add)
    have "of_int \<bar>m' * 2 ^ k - p\<bar> * u \<le> of_int \<bar>j * 2 ^ k - p\<bar> * u"
      unfolding m' by (intro scale_le u round_ties_even_nearest)
    also have "\<dots> = of_int \<bar>p\<bar> * u - B"
      unfolding jp B_def by (simp add: algebra_simps)
    finally have "\<bar>of_int m' * 2 powi e' - of_int p * u\<bar> \<le> \<bar>of_int p * u\<bar> - B"
      unfolding RW W .
    also have "\<dots> \<le> \<bar>of_int p * u\<bar> - \<bar>d\<bar>" using dB by simp
    also have "\<dots> \<le> \<bar>d - of_int p * u\<bar>" by simp
    finally show ?thesis by (simp add: u_def)
  qed
qed

lemma pow_lt_imp_lt: "(2::int) ^ a < 2 ^ b \<Longrightarrow> a < b"
  by (simp add: power_strict_increasing_iff)

lemma abs_lt_bit_length: "\<bar>x\<bar> < 2 ^ bit_length (nat \<bar>x\<bar>)"
proof (cases "x = 0")
  case True
  then show ?thesis by simp
next
  case False
  then have "0 < nat \<bar>x\<bar>" by simp
  from bit_length_bounds[OF this] have "nat \<bar>x\<bar> < 2 ^ bit_length (nat \<bar>x\<bar>)" by simp
  then have "int (nat \<bar>x\<bar>) < int (2 ^ bit_length (nat \<bar>x\<bar>))" by (simp only: of_nat_less_iff)
  then show ?thesis by simp
qed

lemma bit_length_lower: "x \<noteq> 0 \<Longrightarrow> 2 ^ (bit_length (nat \<bar>x\<bar>) - 1) \<le> \<bar>x\<bar>"
proof -
  assume "x \<noteq> 0"
  then have "0 < nat \<bar>x\<bar>" by simp
  from bit_length_bounds[OF this] have "2 ^ (bit_length (nat \<bar>x\<bar>) - 1) \<le> nat \<bar>x\<bar>" by simp
  then have "int (2 ^ (bit_length (nat \<bar>x\<bar>) - 1)) \<le> int (nat \<bar>x\<bar>)" by (simp only: of_nat_le_iff)
  then show ?thesis by simp
qed

lemma round_to_53_bits_sign:
  assumes "round_to_53_bits p e = (m', e')"
  shows "(0 < m' \<longleftrightarrow> 0 < p) \<and> (m' < 0 \<longleftrightarrow> p < 0)"
proof (cases "bit_length (nat \<bar>p\<bar>) \<le> 53")
  case True
  with assms show ?thesis by (simp add: round_to_53_bits_exact)
next
  case False
  then obtain k where k: "round_to_53_bits p e = (round_ties_even p k, e + int k)"
    and lo: "2 ^ (52 + k) \<le> \<bar>p\<bar>" and hi: "\<bar>p\<bar> < 2 ^ (53 + k)"
    using round_to_53_bits_rounded[of p e] by auto
  with assms have m': "m' = round_ties_even p k" by simp
  from round_ties_even_range[OF lo hi] have "2 ^ 52 \<le> \<bar>m'\<bar>" "0 < p \<longleftrightarrow> 0 < m'"
    by (simp_all add: m')
  moreover have "p \<noteq> 0" using lo by auto
  ultimately show ?thesis by auto
qed

text \<open>A rounded product that does not overflow is a double.\<close>

lemma round_to_53_bits_double:
  assumes r: "round_to_53_bits p e = (m', e')" and e: "- 1074 \<le> e"
    and no: "\<not> int (bit_length (nat \<bar>m'\<bar>)) + e' > 1024"
  shows "double_value (of_int m' * 2 powi e')"
proof (cases "bit_length (nat \<bar>p\<bar>) \<le> 53")
  case True
  with r have m': "m' = p" and e': "e' = e" by (simp_all add: round_to_53_bits_exact)
  define n where "n = bit_length (nat \<bar>p\<bar>)"
  have n: "n \<le> 53" "int n + e \<le> 1024" "\<bar>p\<bar> < 2 ^ n"
    using True no abs_lt_bit_length[of p] by (simp_all add: n_def m' e')
  show ?thesis
  proof (cases "e \<le> 971")
    case True
    have "\<bar>p\<bar> < 2 ^ 53"
      using n(3) power_increasing[OF n(1), of "2::int"] by simp
    with True e show ?thesis
      unfolding double_value_def m' e' by blast
  next
    case False
    define j where "j = nat (e - 971)"
    have ej: "e = 971 + int j" using False by (simp add: j_def)
    have nj: "n + j \<le> 53" using n(2) ej by simp
    have "\<bar>p * 2 ^ j\<bar> = \<bar>p\<bar> * 2 ^ j" by (simp add: abs_mult)
    also have "\<dots> < 2 ^ n * 2 ^ j" using n(3) by simp
    also have "\<dots> = 2 ^ (n + j)" by (simp add: power_add)
    also have "\<dots> \<le> 2 ^ 53" using nj by (intro power_increasing) simp_all
    finally have a: "\<bar>p * 2 ^ j\<bar> < 2 ^ 53" .
    have "of_int p * (2::rat) powi e = of_int (p * 2 ^ j) * 2 powi 971"
      unfolding ej by (rule rounded_rep)
    with a show ?thesis
      unfolding double_value_def m' e' by (intro exI[of _ "p * 2 ^ j"] exI[of _ 971]) simp
  qed
next
  case False
  then obtain k where k: "round_to_53_bits p e = (round_ties_even p k, e + int k)"
    and lo: "2 ^ (52 + k) \<le> \<bar>p\<bar>" and hi: "\<bar>p\<bar> < 2 ^ (53 + k)"
    using round_to_53_bits_rounded[of p e] by auto
  with r have m': "m' = round_ties_even p k" and e': "e' = e + int k" by simp_all
  from round_ties_even_range[OF lo hi] have rng: "2 ^ 52 \<le> \<bar>m'\<bar>" "\<bar>m'\<bar> \<le> 2 ^ 53"
    by (simp_all add: m')
  define b where "b = bit_length (nat \<bar>m'\<bar>)"
  have bb: "\<bar>m'\<bar> < 2 ^ b" unfolding b_def by (rule abs_lt_bit_length)
  have e'lo: "- 1074 \<le> e'" using e e' by simp
  show ?thesis
  proof (cases "\<bar>m'\<bar> < 2 ^ 53")
    case True
    have "(2::int) ^ 52 < 2 ^ b" using rng(1) bb by linarith
    then have "52 < b" by (rule pow_lt_imp_lt)
    then have "e' \<le> 971" using no by (simp add: b_def)
    with True e'lo show ?thesis unfolding double_value_def by blast
  next
    case False
    with rng have eq: "\<bar>m'\<bar> = 2 ^ 53" by simp
    then have "(2::int) ^ 53 < 2 ^ b" using bb by simp
    then have "53 < b" by (rule pow_lt_imp_lt)
    then have e'hi: "e' + 1 \<le> 971" using no by (simp add: b_def)
    define h where "h = (if 0 < m' then (2::int) ^ 52 else - (2 ^ 52))"
    have h: "\<bar>h\<bar> < 2 ^ 53" "m' = h * 2" using eq by (auto simp: h_def)
    have "of_int m' * (2::rat) powi e' = of_int h * 2 powi (e' + 1)"
      by (simp add: h(2) power_int_add)
    with h(1) e'lo e'hi show ?thesis
      unfolding double_value_def by (intro exI[of _ h] exI[of _ "e' + 1"]) simp
  qed
qed

text \<open>A rounded significand has 53 bits, and a tie went to the even one.\<close>

lemma round_to_53_bits_tie:
  assumes r: "round_to_53_bits p e = (m', e')" and "53 < bit_length (nat \<bar>p\<bar>)"
  shows "2 ^ 52 \<le> \<bar>m'\<bar> \<and> \<bar>m'\<bar> \<le> 2 ^ 53
         \<and> (\<bar>of_int m' * 2 powi e' - of_int p * 2 powi e\<bar> * 2 = (2::rat) powi e' \<longrightarrow> even m')"
proof -
  from assms(2) obtain k where k: "round_to_53_bits p e = (round_ties_even p k, e + int k)"
    and lo: "2 ^ (52 + k) \<le> \<bar>p\<bar>" and hi: "\<bar>p\<bar> < 2 ^ (53 + k)"
    using round_to_53_bits_rounded[of p e] by auto
  with r have m': "m' = round_ties_even p k" and e': "e' = e + int k" by simp_all
  from round_ties_even_range[OF lo hi] have rng: "2 ^ 52 \<le> \<bar>m'\<bar>" "\<bar>m'\<bar> \<le> 2 ^ 53"
    by (simp_all add: m')
  define u :: rat where "u = 2 powi e"
  have u: "0 < u" by (simp add: u_def)
  have RW: "\<bar>of_int m' * 2 powi e' - of_int p * u\<bar> = of_int \<bar>m' * 2 ^ k - p\<bar> * u"
    unfolding e' u_def rounded_rep by (rule scale_abs) simp
  have U: "(2::rat) powi e' = of_int (2 ^ k) * u"
    by (simp add: e' u_def powi_add_nat)
  have "even m'" if "\<bar>of_int m' * 2 powi e' - of_int p * u\<bar> * 2 = (2::rat) powi e'"
  proof -
    from that have "of_int \<bar>m' * 2 ^ k - p\<bar> * u * 2 = (2::rat) powi e'"
      unfolding RW .
    then have "of_int (\<bar>m' * 2 ^ k - p\<bar> * 2) * u = of_int (2 ^ k) * u"
      unfolding U by simp
    then have "(of_int (\<bar>m' * 2 ^ k - p\<bar> * 2) :: rat) = of_int (2 ^ k)"
      using u by simp
    then have "\<bar>m' * 2 ^ k - p\<bar> * 2 = 2 ^ k"
      by (simp only: of_int_eq_iff)
    then show ?thesis unfolding m' by (rule round_ties_even_tie)
  qed
  with rng show ?thesis by (simp add: u_def)
qed

lemma pow_le_imp_le: "(2::int) ^ a \<le> 2 ^ b \<Longrightarrow> a \<le> b"
  by (simp add: power_increasing_iff)

lemma powi_1024: "(2::rat) powi 1024 = 2 ^ 53 * 2 powi 971"
  using powi_add_nat[of 971 53] by simp

lemma powi_970: "(2::rat) powi 970 = 2 powi 971 / 2"
  using power_int_diff[of "2::rat" 971 1] by simp

text \<open>
  The rounded product has magnitude \<open>2 ^ 1024\<close> or more exactly when the exact product is
  at least halfway from the largest double to \<open>2 ^ 1024\<close>.
\<close>

lemma round_to_53_bits_overflow:
  assumes r: "round_to_53_bits p e = (m', e')" and p0: "p \<noteq> 0"
  shows "int (bit_length (nat \<bar>m'\<bar>)) + e' > 1024
           \<longleftrightarrow> 2 powi 1024 - 2 powi 970 \<le> \<bar>of_int p * (2::rat) powi e\<bar>"
proof -
  define T :: rat where "T = 2 powi 971"
  have T: "0 < T" by (simp add: T_def)
  have thr: "(2::rat) powi 1024 - 2 powi 970 = (2 ^ 53 - 1 / 2) * T"
    unfolding powi_1024 powi_970 T_def by (simp add: algebra_simps)
  define W :: rat where "W = \<bar>of_int p * 2 powi e\<bar>"
  have W: "W = of_int \<bar>p\<bar> * 2 powi e" by (simp add: W_def abs_mult)
  show ?thesis
  proof (cases "bit_length (nat \<bar>p\<bar>) \<le> 53")
    case True
    with r have m': "m' = p" and e': "e' = e" by (simp_all add: round_to_53_bits_exact)
    define n where "n = bit_length (nat \<bar>p\<bar>)"
    have n53: "n \<le> 53" using True by (simp add: n_def)
    have npos: "0 < n" using p0 bit_length_pos[of "nat \<bar>p\<bar>"] by (simp add: n_def)
    have lo: "2 ^ (n - 1) \<le> \<bar>p\<bar>" unfolding n_def by (rule bit_length_lower[OF p0])
    have hi: "\<bar>p\<bar> \<le> 2 ^ n - 1" using abs_lt_bit_length[of p] by (simp add: n_def)
    show ?thesis
    proof (cases "int n + e > 1024")
      case True
      have "(2::rat) powi 1024 \<le> 2 powi (e + int (n - 1))"
        using True npos by (intro powi_mono) linarith
      also have "\<dots> = of_int (2 ^ (n - 1)) * 2 powi e"
        by (simp add: powi_add_nat)
      also have "\<dots> \<le> of_int \<bar>p\<bar> * 2 powi e"
        using lo by (intro scale_le) simp_all
      finally have "(2::rat) powi 1024 \<le> W" unfolding W .
      moreover have "(2::rat) powi 1024 - 2 powi 970 \<le> 2 powi 1024" by simp
      ultimately have "(2::rat) powi 1024 - 2 powi 970 \<le> W" by linarith
      with True show ?thesis by (simp add: W_def m' e' n_def)
    next
      case False
      define t :: rat where "t = 2 powi (e + int n - 53)"
      have t: "0 < t" by (simp add: t_def)
      have tT: "t \<le> T" unfolding t_def T_def using False by (intro powi_mono) simp
      have "e + int n = (e + int n - 53) + int 53" by simp
      then have sn: "(2::rat) powi (e + int n) = 2 ^ 53 * t"
        unfolding t_def using powi_add_nat[of "e + int n - 53" 53] by simp
      have te: "t \<le> 2 powi e" unfolding t_def using n53 by (intro powi_mono) simp
      have "W \<le> of_int (2 ^ n - 1) * 2 powi e"
        unfolding W using hi by (intro scale_le) simp_all
      also have "\<dots> = 2 powi (e + int n) - 2 powi e"
        by (simp add: powi_add_nat algebra_simps)
      also have "\<dots> \<le> 2 ^ 53 * t - t" unfolding sn using te by simp
      also have "\<dots> = (2 ^ 53 - 1) * t" by (simp add: algebra_simps)
      also have "\<dots> \<le> (2 ^ 53 - 1) * T" using tT by (intro mult_left_mono) simp_all
      also have "\<dots> < (2 ^ 53 - 1 / 2) * T" using T by (intro mult_strict_right_mono) simp_all
      finally have "W < (2::rat) powi 1024 - 2 powi 970" unfolding thr .
      with False show ?thesis by (simp add: W_def m' e' n_def)
    qed
  next
    case False
    then obtain k where k: "round_to_53_bits p e = (round_ties_even p k, e + int k)"
      and lo: "2 ^ (52 + k) \<le> \<bar>p\<bar>" and hi: "\<bar>p\<bar> < 2 ^ (53 + k)"
      using round_to_53_bits_rounded[of p e] by auto
    with r have m': "m' = round_ties_even p k" and e': "e' = e + int k" by simp_all
    have big: "53 < bit_length (nat \<bar>p\<bar>)" using False by simp
    from round_to_53_bits_tie[OF r big]
    have rng: "2 ^ 52 \<le> \<bar>m'\<bar>" "\<bar>m'\<bar> \<le> 2 ^ 53"
      and tie: "\<bar>of_int m' * 2 powi e' - of_int p * 2 powi e\<bar> * 2 = (2::rat) powi e' \<Longrightarrow> even m'"
      by auto
    define U :: rat where "U = 2 powi e'"
    have U: "0 < U" by (simp add: U_def)
    have Uu: "U = of_int (2 ^ k) * 2 powi e" by (simp add: U_def e' powi_add_nat)
    define D :: rat where "D = \<bar>of_int m' * 2 powi e' - of_int p * 2 powi e\<bar>"
    have near: "D * 2 \<le> U" unfolding D_def U_def by (rule round_to_53_bits_near[OF r])
    define R :: rat where "R = of_int \<bar>m'\<bar> * U"
    have Rabs: "R = \<bar>of_int m' * 2 powi e'\<bar>" by (simp add: R_def U_def abs_mult)
    have tri: "R - D \<le> W" "W \<le> R + D"
      unfolding Rabs D_def W_def by linarith+
    have Wlo: "2 ^ 52 * U \<le> W"
    proof -
      have "of_int (2 ^ (52 + k)) * 2 powi e \<le> of_int \<bar>p\<bar> * (2::rat) powi e"
        using lo by (intro scale_le) simp_all
      then show ?thesis unfolding W Uu by (simp add: power_add algebra_simps)
    qed
    have Whi: "W < 2 ^ 53 * U"
    proof -
      have "(of_int \<bar>p\<bar> :: rat) < of_int (2 ^ (53 + k))"
        using hi by (simp only: of_int_less_iff)
      then have "of_int \<bar>p\<bar> * 2 powi e < of_int (2 ^ (53 + k)) * (2::rat) powi e"
        by (intro mult_strict_right_mono) simp_all
      then show ?thesis unfolding W Uu by (simp add: power_add algebra_simps)
    qed
    define b where "b = bit_length (nat \<bar>m'\<bar>)"
    have bb: "\<bar>m'\<bar> < 2 ^ b" unfolding b_def by (rule abs_lt_bit_length)
    have m0: "m' \<noteq> 0" using rng(1) by auto
    have bl: "2 ^ (b - 1) \<le> \<bar>m'\<bar>" unfolding b_def by (rule bit_length_lower[OF m0])
    show ?thesis
    proof (cases "\<bar>m'\<bar> < 2 ^ 53")
      case True
      have "(2::int) ^ 52 < 2 ^ b" using rng(1) bb by linarith
      then have b1: "52 < b" by (rule pow_lt_imp_lt)
      have "(2::int) ^ (b - 1) < 2 ^ 53" using bl True by linarith
      then have "b - 1 < 53" by (rule pow_lt_imp_lt)
      with b1 have b53: "b = 53" by simp
      have strict: "W < (2 ^ 53 - 1 / 2) * U"
      proof (cases "D * 2 = U")
        case True
        then have "even m'" using tie by (simp add: D_def U_def)
        then have "even \<bar>m'\<bar>" by simp
        moreover have "odd ((2::int) ^ 53 - 1)" by simp
        ultimately have "\<bar>m'\<bar> \<noteq> 2 ^ 53 - 1" by metis
        with \<open>\<bar>m'\<bar> < 2 ^ 53\<close> have "\<bar>m'\<bar> \<le> 2 ^ 53 - 2" by simp
        then have "of_int \<bar>m'\<bar> * U \<le> of_int (2 ^ 53 - 2) * U"
          by (intro scale_le U)
        then have "R \<le> (2 ^ 53 - 2) * U" by (simp add: R_def)
        with tri(2) True U show ?thesis by (simp add: algebra_simps)
      next
        case False
        with near have lt: "D * 2 < U" by simp
        have "\<bar>m'\<bar> \<le> 2 ^ 53 - 1" using True by simp
        then have "of_int \<bar>m'\<bar> * U \<le> of_int (2 ^ 53 - 1) * U"
          by (intro scale_le U)
        then have "R \<le> (2 ^ 53 - 1) * U" by (simp add: R_def)
        with tri(2) lt show ?thesis by (simp add: algebra_simps)
      qed
      show ?thesis
      proof (cases "e' \<ge> 972")
        case True
        have "(2::rat) powi 1024 = 2 ^ 52 * 2 powi 972"
          using powi_add_nat[of 972 52] by simp
        also have "\<dots> \<le> 2 ^ 52 * U"
          unfolding U_def using True by (intro mult_left_mono powi_mono) simp_all
        also have "\<dots> \<le> W" by (rule Wlo)
        finally have "(2::rat) powi 1024 \<le> W" .
        moreover have "(2::rat) powi 1024 - 2 powi 970 \<le> 2 powi 1024" by simp
        ultimately have "(2::rat) powi 1024 - 2 powi 970 \<le> W" by linarith
        with True show ?thesis by (simp add: W_def b_def[symmetric] b53)
      next
        case False
        then have "U \<le> T" unfolding U_def T_def by (intro powi_mono) simp
        then have "(2 ^ 53 - 1 / 2) * U \<le> (2 ^ 53 - 1 / 2) * T"
          by (intro mult_left_mono) simp_all
        with strict have "W < (2::rat) powi 1024 - 2 powi 970" unfolding thr by linarith
        with False show ?thesis by (simp add: W_def b_def[symmetric] b53)
      qed
    next
      case False
      with rng have eq: "\<bar>m'\<bar> = 2 ^ 53" by simp
      then have "(2::int) ^ 53 < 2 ^ b" using bb by simp
      then have b1: "53 < b" by (rule pow_lt_imp_lt)
      have "(2::int) ^ (b - 1) \<le> 2 ^ 53" using bl eq by simp
      then have "b - 1 \<le> 53" by (rule pow_le_imp_le)
      with b1 have b54: "b = 54" by simp
      have Req: "R = 2 ^ 53 * U" by (simp add: R_def eq)
      show ?thesis
      proof (cases "e' \<ge> 971")
        case True
        then have "T \<le> U" unfolding U_def T_def by (intro powi_mono)
        then have "(2 ^ 53 - 1 / 2) * T \<le> (2 ^ 53 - 1 / 2) * U"
          by (intro mult_left_mono) simp_all
        also have "\<dots> \<le> R - D" using near unfolding Req by (simp add: algebra_simps)
        also have "\<dots> \<le> W" by (rule tri(1))
        finally have "(2::rat) powi 1024 - 2 powi 970 \<le> W" unfolding thr .
        with True show ?thesis by (simp add: W_def b_def[symmetric] b54)
      next
        case False
        then have "e' \<le> 970" by simp
        then have "U \<le> 2 powi 970" unfolding U_def by (rule powi_mono)
        then have "U \<le> T / 2" by (simp add: powi_970 T_def)
        then have "2 ^ 53 * U \<le> 2 ^ 53 * (T / 2)" by (intro mult_left_mono) simp_all
        also have "\<dots> < (2 ^ 53 - 1 / 2) * T" using T by (simp add: algebra_simps)
        finally have "2 ^ 53 * U < (2 ^ 53 - 1 / 2) * T" .
        with Whi have "W < (2::rat) powi 1024 - 2 powi 970" unfolding thr by linarith
        with False show ?thesis by (simp add: W_def b_def[symmetric] b54)
      qed
    qed
  qed
qed

lemma times_100_eq:
  assumes "round_to_53_bits (m * 100) e = (m', e')"
  shows "times_100 (Finite m e) =
           (if 0 < m' \<and> int (bit_length (nat \<bar>m'\<bar>)) + e' > 1024 then PosInfinity
            else if m' < 0 \<and> int (bit_length (nat \<bar>m'\<bar>)) + e' > 1024 then NegInfinity
            else Finite m' e')"
  using assms by (simp add: Let_def)

text \<open>
  What \<open>times_100\<close> computes, in terms of the exact product \<open>w\<close>: it overflows to an
  infinity exactly when \<open>w\<close> is at least halfway from the largest double to \<open>2 ^ 1024\<close>;
  otherwise the result is a double, no double is nearer to \<open>w\<close>, and when it is not \<open>w\<close>
  itself its significand has 53 bits and is even if \<open>w\<close> lies halfway between two
  neighbours.
\<close>

lemma times_100_spec:
  fixes m e m' e' :: int and w :: rat
  assumes e: "- 1074 \<le> e"
  defines "w \<equiv> 100 * (of_int m * 2 powi e)"
  shows "times_100 (Finite m e) \<noteq> NaN"
    and "times_100 (Finite m e) = PosInfinity \<longleftrightarrow> 2 powi 1024 - 2 powi 970 \<le> w"
    and "times_100 (Finite m e) = NegInfinity \<longleftrightarrow> w \<le> - (2 powi 1024 - 2 powi 970)"
    and "times_100 (Finite m e) = Finite m' e' \<Longrightarrow>
           double_value (of_int m' * 2 powi e')
           \<and> (\<forall>d. double_value d \<longrightarrow> \<bar>of_int m' * 2 powi e' - w\<bar> \<le> \<bar>d - w\<bar>)
           \<and> (of_int m' * 2 powi e' \<noteq> w \<longrightarrow>
                 2 ^ 52 \<le> \<bar>m'\<bar> \<and> \<bar>m'\<bar> \<le> 2 ^ 53
                 \<and> (\<bar>of_int m' * 2 powi e' - w\<bar> * 2 = 2 powi e' \<longrightarrow> even m'))"
proof -
  obtain a b where r: "round_to_53_bits (m * 100) e = (a, b)"
    by (cases "round_to_53_bits (m * 100) e") auto
  note t = times_100_eq[OF r]
  have w: "w = of_int (m * 100) * 2 powi e" by (simp add: w_def)
  have sgn: "(0 < a \<longleftrightarrow> 0 < m) \<and> (a < 0 \<longleftrightarrow> m < 0)"
    using round_to_53_bits_sign[OF r] by simp
  have thr: "(0::rat) < 2 powi 1024 - 2 powi 970"
    unfolding powi_1024 powi_970 by (simp add: algebra_simps)
  have np: "\<not> (2::rat) powi e < 0" by (simp add: not_less)
  have wpos: "0 < w \<longleftrightarrow> 0 < m" "w < 0 \<longleftrightarrow> m < 0"
    unfolding w_def by (simp_all add: zero_less_mult_iff mult_less_0_iff np)
  have ov: "int (bit_length (nat \<bar>a\<bar>)) + b > 1024 \<longleftrightarrow> 2 powi 1024 - 2 powi 970 \<le> \<bar>w\<bar>"
    if "m \<noteq> 0"
    unfolding w using round_to_53_bits_overflow[OF r] that by simp
  show "times_100 (Finite m e) \<noteq> NaN" unfolding t by simp
  show "times_100 (Finite m e) = PosInfinity \<longleftrightarrow> 2 powi 1024 - 2 powi 970 \<le> w"
  proof (cases "0 < m")
    case True
    then have "\<bar>w\<bar> = w" using wpos by simp
    with True ov sgn show ?thesis unfolding t by auto
  next
    case False
    then have "w \<le> 0" using wpos(1) by simp
    with False thr sgn show ?thesis unfolding t by auto
  qed
  show "times_100 (Finite m e) = NegInfinity \<longleftrightarrow> w \<le> - (2 powi 1024 - 2 powi 970)"
  proof (cases "m < 0")
    case True
    then have "\<bar>w\<bar> = - w" using wpos by simp
    with True ov sgn show ?thesis unfolding t by auto
  next
    case False
    then have "0 \<le> w" using wpos(2) by simp
    with False thr sgn show ?thesis unfolding t by auto
  qed
  assume f: "times_100 (Finite m e) = Finite m' e'"
  define over where "over \<longleftrightarrow> int (bit_length (nat \<bar>a\<bar>)) + b > 1024"
  from f have "(if 0 < a \<and> over then PosInfinity
                else if a < 0 \<and> over then NegInfinity else Finite a b) = Finite m' e'"
    unfolding t over_def .
  then have "a = m' \<and> b = e' \<and> (\<not> over \<or> a = 0)"
    by (auto split: if_splits)
  then have ab: "a = m'" "b = e'" and no: "\<not> int (bit_length (nat \<bar>a\<bar>)) + b > 1024 \<or> a = 0"
    unfolding over_def by blast+
  have dbl: "double_value (of_int m' * 2 powi e')"
  proof (cases "a = 0")
    case True
    have "double_value 0"
      unfolding double_value_def by (intro exI[of _ 0] exI[of _ 0]) simp
    with True ab show ?thesis by simp
  next
    case False
    with no have "\<not> int (bit_length (nat \<bar>a\<bar>)) + b > 1024" by simp
    from round_to_53_bits_double[OF r e this] show ?thesis by (simp add: ab)
  qed
  have nearest: "\<forall>d. double_value d \<longrightarrow> \<bar>of_int m' * 2 powi e' - w\<bar> \<le> \<bar>d - w\<bar>"
    unfolding w using round_to_53_bits_nearest[OF r] by (simp add: ab)
  have norm: "2 ^ 52 \<le> \<bar>m'\<bar> \<and> \<bar>m'\<bar> \<le> 2 ^ 53
                 \<and> (\<bar>of_int m' * 2 powi e' - w\<bar> * 2 = 2 powi e' \<longrightarrow> even m')"
    if "of_int m' * 2 powi e' \<noteq> w"
  proof -
    have "53 < bit_length (nat \<bar>m * 100\<bar>)"
    proof (rule ccontr)
      assume "\<not> 53 < bit_length (nat \<bar>m * 100\<bar>)"
      then have "round_to_53_bits (m * 100) e = (m * 100, e)"
        by (intro round_to_53_bits_exact) simp
      with r ab that show False by (simp add: w)
    qed
    from round_to_53_bits_tie[OF r this] show ?thesis unfolding w by (simp add: ab)
  qed
  from dbl nearest norm
  show "double_value (of_int m' * 2 powi e')
           \<and> (\<forall>d. double_value d \<longrightarrow> \<bar>of_int m' * 2 powi e' - w\<bar> \<le> \<bar>d - w\<bar>)
           \<and> (of_int m' * 2 powi e' \<noteq> w \<longrightarrow>
                 2 ^ 52 \<le> \<bar>m'\<bar> \<and> \<bar>m'\<bar> \<le> 2 ^ 53
                 \<and> (\<bar>of_int m' * 2 powi e' - w\<bar> * 2 = 2 powi e' \<longrightarrow> even m'))"
    by blast
qed

section \<open>createPayment\<close>

lemmas times_100_defs = round_to_53_bits_def round_ties_even_def Let_def bit_length.simps

lemma times_100_amount_199_995:
  "times_100 amount_199_995 = Finite 5497420699926528 (- 38)"
  by (simp add: amount_199_995_def times_100_defs)

lemma example_createPayment:
  "createPayment example_env ''b1'' ''u1'' amount_199_995 ''t2'' (example_state\<lparr>payment_tbl := []\<rparr>)
   = (Inr \<lparr>result_paymentId = ''pay2'', result_orderId = ''order_B'', result_amount = Finite 20000 0,
           result_currency = ''INR''\<rparr>,
      example_state\<lparr>payment_tbl := [example_payment\<lparr>payment_id := ''pay2'', transactionId := ''t2'',
                          razorpayOrderId := Some ''order_B''\<rparr>],
        razorpay_orders := [\<lparr>options_amount = Finite 20000 0, options_currency = ''INR'',
                              options_receipt = ''rcpt_b1_0a1b2c3d'', notes_bookingId = ''b1'',
                              notes_userId = ''u1'', notes_transactionId = ''t2'',
                              notes_clientDateTime = ''2025-01-01T00:00:00.000Z''\<rparr>],
        sent_mails := [\<lparr>mail_to = ''one@example.org'', mail_stationName = ''Radio One'',
                         mail_amountInPaise = 20000, mail_paymentID = ''pay2''\<rparr>]\<rparr>)"
  by (simp add: createPayment_def example_defs amount_199_995_def
        booking_findUnique_def radioStation_findUnique_def payment_create_def SendMail_def
        times_100_defs)

text \<open>
  The product is the product of doubles, not of the decimals written. The double nearest
  to 1.005 times 100 is 100.49999999999999, which rounds to 100; the double nearest to
  1.115 is below 1.115, its product with 100 rounds to the double 111.5, and that rounds
  to 112; the double nearest to 19.99 gives 1999. A product beyond the largest double is
  infinite, however the double is written.
\<close>

lemma times_100_double_product:
  "Math_round (times_100 (Finite 1131529406376837 (- 50))) = Finite 100 0
   \<and> times_100 (Finite 5021513584518103 (- 52)) = Finite 7846114975809536 (- 46)
   \<and> Math_round (times_100 (Finite 5021513584518103 (- 52))) = Finite 112 0
   \<and> Math_round (times_100 (Finite 5626684784446013 (- 48))) = Finite 1999 0
   \<and> times_100 (Finite 1 1023) = PosInfinity
   \<and> times_100 (Finite 4503599627370496 971) = PosInfinity
   \<and> times_100 (Finite (- 1) 1023) = NegInfinity
   \<and> times_100 (Finite 0 2000) = Finite 0 2000"
  by (simp add: times_100_defs)


text \<open>
  Claim C7. \<open>createPayment\<close> rejects an amount that is zero or negative, and an amount
  whose converted value is zero or negative, with status 400, before anything else: the
  state comes back as it was, so no order was requested from the gateway and no payment
  record was made. The conversion multiplies by 100 as doubles are multiplied: for the
  exact product \<open>w\<close> of a double \<open>m * 2 ^ e\<close> with 100, the result is infinite exactly
  when \<open>w\<close> is at least halfway from the largest double to \<open>2 ^ 1024\<close>, and is otherwise a
  double such that no double is nearer to \<open>w\<close>, with a 53-bit significand that is even
  when \<open>w\<close> lies halfway between two doubles. It then rounds to the nearest integer, a
  half going up: the result is \<open>floor (v + 1/2)\<close> for the product \<open>v\<close>. For the double
  written 199.995 the product is 19999.5 and the result 20000. A call that succeeds has
  stored that integer in the new payment and asked the gateway for that amount.
\<close>

theorem createPayment_amount_conversion:
  "(number_le_zero x \<longrightarrow>
      createPayment env bid uid x tid s
        = (Inl (HttpException ''Invalid payment amount provided.'' BAD_REQUEST), s))
   \<and> (\<not> number_le_zero x \<and> number_le_zero (Math_round (times_100 x)) \<longrightarrow>
      createPayment env bid uid x tid s
        = (Inl (HttpException ''Amount must be positive.'' BAD_REQUEST), s))
   \<and> (\<forall>v. number_value x = Some v \<longrightarrow> (number_le_zero x \<longleftrightarrow> v \<le> 0))
   \<and> number_value (Finite m e) = Some (of_int m * 2 powi e)
   \<and> number_value (Math_round (Finite m e))
       = map_option (\<lambda>v. of_int \<lfloor>v + 1 / 2\<rfloor>) (number_value (Finite m e))
   \<and> (- 1074 \<le> e \<longrightarrow>
        times_100 (Finite m e) \<noteq> NaN
        \<and> (times_100 (Finite m e) = PosInfinity
             \<longleftrightarrow> 2 powi 1024 - 2 powi 970 \<le> 100 * (of_int m * (2::rat) powi e))
        \<and> (times_100 (Finite m e) = NegInfinity
             \<longleftrightarrow> 100 * (of_int m * (2::rat) powi e) \<le> - (2 powi 1024 - 2 powi 970))
        \<and> (\<forall>m' e'. times_100 (Finite m e) = Finite m' e' \<longrightarrow>
              double_value (of_int m' * 2 powi e')
              \<and> (\<forall>d. double_value d \<longrightarrow>
                    \<bar>of_int m' * 2 powi e' - 100 * (of_int m * 2 powi e)\<bar>
                      \<le> \<bar>d - 100 * (of_int m * 2 powi e)\<bar>)
              \<and> (of_int m' * 2 powi e' \<noteq> 100 * (of_int m * (2::rat) powi e) \<longrightarrow>
                    2 ^ 52 \<le> \<bar>m'\<bar> \<and> \<bar>m'\<bar> \<le> 2 ^ 53
                    \<and> (\<bar>of_int m' * 2 powi e' - 100 * (of_int m * 2 powi e)\<bar> * 2
                          = (2::rat) powi e' \<longrightarrow> even m'))))
   \<and> number_value amount_199_995 = Some (1759174623976489 / 2 ^ 43)
   \<and> \<bar>(1759174623976489 :: rat) / 2 ^ 43 - 199995 / 1000\<bar> \<le> 1 / 2 ^ 46
   \<and> number_value (times_100 amount_199_995) = Some (39999 / 2)
   \<and> Math_round (times_100 amount_199_995) = Finite 20000 0
   \<and> (\<forall>r s'. createPayment env bid uid x tid s = (Inr r, s') \<longrightarrow>
        (\<exists>n p. 0 < n \<and> Math_round (times_100 x) = Finite n 0
           \<and> payment_tbl s' = payment_tbl s @ [p] \<and> amountInPaise p = n
           \<and> paymentStatus p = PENDING
           \<and> map options_amount (razorpay_orders s')
               = map options_amount (razorpay_orders s) @ [Finite n 0]))"
proof -
  have 1: "number_le_zero x \<longrightarrow>
      createPayment env bid uid x tid s
        = (Inl (HttpException ''Invalid payment amount provided.'' BAD_REQUEST), s)"
    by (simp add: createPayment_def)
  have 2: "\<not> number_le_zero x \<and> number_le_zero (Math_round (times_100 x)) \<longrightarrow>
      createPayment env bid uid x tid s
        = (Inl (HttpException ''Amount must be positive.'' BAD_REQUEST), s)"
    by (simp add: createPayment_def Let_def)
  have 3: "\<forall>v. number_value x = Some v \<longrightarrow> (number_le_zero x \<longleftrightarrow> v \<le> 0)"
    using le_zero_value by blast
  have 5: "- 1074 \<le> e \<longrightarrow>
        times_100 (Finite m e) \<noteq> NaN
        \<and> (times_100 (Finite m e) = PosInfinity
             \<longleftrightarrow> 2 powi 1024 - 2 powi 970 \<le> 100 * (of_int m * (2::rat) powi e))
        \<and> (times_100 (Finite m e) = NegInfinity
             \<longleftrightarrow> 100 * (of_int m * (2::rat) powi e) \<le> - (2 powi 1024 - 2 powi 970))
        \<and> (\<forall>m' e'. times_100 (Finite m e) = Finite m' e' \<longrightarrow>
              double_value (of_int m' * 2 powi e')
              \<and> (\<forall>d. double_value d \<longrightarrow>
                    \<bar>of_int m' * 2 powi e' - 100 * (of_int m * 2 powi e)\<bar>
                      \<le> \<bar>d - 100 * (of_int m * 2 powi e)\<bar>)
              \<and> (of_int m' * 2 powi e' \<noteq> 100 * (of_int m * (2::rat) powi e) \<longrightarrow>
                    2 ^ 52 \<le> \<bar>m'\<bar> \<and> \<bar>m'\<bar> \<le> 2 ^ 53
                    \<and> (\<bar>of_int m' * 2 powi e' - 100 * (of_int m * 2 powi e)\<bar> * 2
                          = (2::rat) powi e' \<longrightarrow> even m')))"
    using times_100_spec[of e m] by blast
  have 7: "number_value amount_199_995 = Some (1759174623976489 / 2 ^ 43)"
    by (simp add: amount_199_995_def)
  have 8: "\<bar>(1759174623976489 :: rat) / 2 ^ 43 - 199995 / 1000\<bar> \<le> 1 / 2 ^ 46"
    by (simp add: field_simps)
  have 9: "number_value (times_100 amount_199_995) = Some (39999 / 2)"
    unfolding times_100_amount_199_995 by simp
  have 10: "Math_round (times_100 amount_199_995) = Finite 20000 0"
    unfolding times_100_amount_199_995 by simp
  have 11: "\<forall>r s'. createPayment env bid uid x tid s = (Inr r, s') \<longrightarrow>
        (\<exists>n p. 0 < n \<and> Math_round (times_100 x) = Finite n 0
           \<and> payment_tbl s' = payment_tbl s @ [p] \<and> amountInPaise p = n
           \<and> paymentStatus p = PENDING
           \<and> map options_amount (razorpay_orders s')
               = map options_amount (razorpay_orders s) @ [Finite n 0])"
    using createPayment_Inr by blast
  show ?thesis
    by (intro conjI 1 2 3 number_value_powi Math_round_floor 5 7 8 9 10 11)
qed

theorem createPayment_amount_conversion_witness:
  "number_le_zero (Finite 0 0)
   \<and> createPayment example_env ''b1'' ''u1'' (Finite 0 0) ''t2'' (example_state\<lparr>payment_tbl := []\<rparr>)
       = (Inl (HttpException ''Invalid payment amount provided.'' BAD_REQUEST),
          example_state\<lparr>payment_tbl := []\<rparr>)
   \<and> number_le_zero (Finite (- 5) (- 1))
   \<and> createPayment example_env ''b1'' ''u1'' (Finite (- 5) (- 1)) ''t2'' (example_state\<lparr>payment_tbl := []\<rparr>)
       = (Inl (HttpException ''Invalid payment amount provided.'' BAD_REQUEST),
          example_state\<lparr>payment_tbl := []\<rparr>)
   \<and> \<not> number_le_zero (Finite 1 (- 10))
   \<and> number_le_zero (Math_round (times_100 (Finite 1 (- 10))))
   \<and> createPayment example_env ''b1'' ''u1'' (Finite 1 (- 10)) ''t2'' (example_state\<lparr>payment_tbl := []\<rparr>)
       = (Inl (HttpException ''Amount must be positive.'' BAD_REQUEST),
          example_state\<lparr>payment_tbl := []\<rparr>)
   \<and> (- 1074 :: int) \<le> - 52
   \<and> times_100 (Finite 5021513584518103 (- 52)) = Finite 7846114975809536 (- 46)
   \<and> double_value (of_int 7846114975809536 * 2 powi (- 46))
   \<and> double_value 111
   \<and> \<bar>of_int 7846114975809536 * 2 powi (- 46) - 100 * (of_int 5021513584518103 * 2 powi (- 52))\<bar>
       \<le> \<bar>111 - 100 * (of_int 5021513584518103 * (2::rat) powi (- 52))\<bar>
   \<and> Math_round (times_100 (Finite 5021513584518103 (- 52))) = Finite 112 0
   \<and> Math_round (times_100 amount_199_995) = Finite 20000 0
   \<and> map amountInPaise (payment_tbl (snd (createPayment example_env ''b1'' ''u1'' amount_199_995 ''t2''
        (example_state\<lparr>payment_tbl := []\<rparr>)))) = [20000]
   \<and> map options_amount (razorpay_orders (snd (createPayment example_env ''b1'' ''u1'' amount_199_995
        ''t2'' (example_state\<lparr>payment_tbl := []\<rparr>)))) = [Finite 20000 0]"
proof -
  let ?s = "example_state\<lparr>payment_tbl := []\<rparr>"
  note t = createPayment_amount_conversion[of _ example_env "''b1''" "''u1''" "''t2''" ?s]
  have z: "number_le_zero (Finite 0 0)" by simp
  have z': "createPayment example_env ''b1'' ''u1'' (Finite 0 0) ''t2'' ?s
       = (Inl (HttpException ''Invalid payment amount provided.'' BAD_REQUEST), ?s)"
    using t[of "Finite 0 0"] z by blast
  have n: "number_le_zero (Finite (- 5) (- 1))" by simp
  have n': "createPayment example_env ''b1'' ''u1'' (Finite (- 5) (- 1)) ''t2'' ?s
       = (Inl (HttpException ''Invalid payment amount provided.'' BAD_REQUEST), ?s)"
    using t[of "Finite (- 5) (- 1)"] n by blast
  have p: "\<not> number_le_zero (Finite 1 (- 10))" by simp
  have q: "number_le_zero (Math_round (times_100 (Finite 1 (- 10))))"
    by (simp add: times_100_defs)
  have q': "createPayment example_env ''b1'' ''u1'' (Finite 1 (- 10)) ''t2'' ?s
       = (Inl (HttpException ''Amount must be positive.'' BAD_REQUEST), ?s)"
    using t[of "Finite 1 (- 10)"] p q by blast
  have e: "(- 1074 :: int) \<le> - 52" by simp
  have c: "times_100 (Finite 5021513584518103 (- 52)) = Finite 7846114975809536 (- 46)"
    by (simp add: times_100_defs)
  have d111: "double_value 111"
    unfolding double_value_def by (intro exI[of _ 111] exI[of _ 0]) simp
  note u = t[of "Finite 0 0" 5021513584518103 "- 52"]
  have dv: "double_value (of_int 7846114975809536 * 2 powi (- 46))"
    using u e c by blast
  have nr: "\<bar>of_int 7846114975809536 * 2 powi (- 46) - 100 * (of_int 5021513584518103 * 2 powi (- 52))\<bar>
       \<le> \<bar>111 - 100 * (of_int 5021513584518103 * (2::rat) powi (- 52))\<bar>"
    using u e c d111 by blast
  have c': "Math_round (times_100 (Finite 5021513584518103 (- 52))) = Finite 112 0"
    unfolding c by simp
  have r: "Math_round (times_100 amount_199_995) = Finite 20000 0"
    using t[of amount_199_995] by blast
  have a: "map amountInPaise (payment_tbl (snd (createPayment example_env ''b1'' ''u1'' amount_199_995 ''t2''
        ?s))) = [20000]"
    by (simp add: example_createPayment example_payment_def)
  have b: "map options_amount (razorpay_orders (snd (createPayment example_env ''b1'' ''u1'' amount_199_995
        ''t2'' ?s))) = [Finite 20000 0]"
    by (simp add: example_createPayment)
  show ?thesis
    by (intro conjI z z' n n' p q q' e c dv d111 nr c' r a b)
qed

end
